theory Spec2Isabelle
  imports Main "HOL-Library.AList"
begin

section \<open>Data model\<close>

text \<open>
  The exceptions of \<^verbatim>\<open>codes_sparsematrix.py\<close>. \<open>IndexError\<close> and \<open>ValueError\<close> are the
  ones the built-ins raise (list indexing, \<^verbatim>\<open>int()\<close>, tuple unpacking). \<open>FormatError\<close> is
  \<^verbatim>\<open>ValueError("Input file has wrong format")\<close> and \<open>DimensionMismatch\<close> is the
  \<^verbatim>\<open>ValueError\<close> the three operators raise on incompatible shapes.
\<close>

datatype exn = IndexError | ValueError | FormatError | DimensionMismatch

text \<open>
  A Python \<^verbatim>\<open>dict\<close> keeps insertion order, so it is an association list: assigning to a
  present key overwrites in place, assigning to a new key appends (\<open>AList.update\<close>).
  \<open>self.data\<close> is a dict of dicts, both keyed by integers.
\<close>

record SparseMatrix =
  rows :: int
  cols :: int
  data :: "(int \<times> (int \<times> int) list) list"

text \<open>
  Python dicts have no duplicate keys: the outer dict and every inner dict. Where a theorem
  needs it, it is a hypothesis on the dict that a loop iterates.
\<close>

definition wf_matrix :: "SparseMatrix \<Rightarrow> bool" where
  "wf_matrix m \<longleftrightarrow> distinct (map fst (data m)) \<and> (\<forall>p \<in> set (data m). distinct (map fst (snd p)))"

definition init :: "int \<Rightarrow> int \<Rightarrow> SparseMatrix" where
  "init r c = \<lparr>rows = r, cols = c, data = []\<rparr>"

text \<open>\<^verbatim>\<open>d.get(k, default)\<close>\<close>

definition dict_get :: "('k \<times> 'v) list \<Rightarrow> 'k \<Rightarrow> 'v \<Rightarrow> 'v" where
  "dict_get d k dflt = (case map_of d k of None \<Rightarrow> dflt | Some v \<Rightarrow> v)"

text \<open>\<^verbatim>\<open>for k in d\<close>: the keys in insertion order.\<close>

definition keys :: "('k \<times> 'v) list \<Rightarrow> 'k list" where
  "keys d = map fst d"

text \<open>\<^verbatim>\<open>return self.data.get(row, {}).get(col, 0)\<close>\<close>

definition get_element :: "SparseMatrix \<Rightarrow> int \<Rightarrow> int \<Rightarrow> int" where
  "get_element self row col = dict_get (dict_get (data self) row []) col 0"

text \<open>
  \<^verbatim>\<open>if row not in self.data: self.data[row] = {}\<close> and then
  \<^verbatim>\<open>self.data[row][col] = value\<close>. The row is present when it is indexed, so the
  default of \<open>dict_get\<close> is never taken there.
\<close>

definition set_element :: "SparseMatrix \<Rightarrow> int \<Rightarrow> int \<Rightarrow> int \<Rightarrow> SparseMatrix" where
  "set_element self row col val =
     (let d = (if map_of (data self) row = None then AList.update row [] (data self)
               else data self)
      in self\<lparr>data := AList.update row (AList.update col val (dict_get d row [])) d\<rparr>)"

text \<open>\<^verbatim>\<open>row in m.data and col in m.data[row]\<close>: the key (row, col) is stored.\<close>

definition has_entry :: "SparseMatrix \<Rightarrow> int \<Rightarrow> int \<Rightarrow> bool" where
  "has_entry m row col =
     (case map_of (data m) row of None \<Rightarrow> False
      | Some rd \<Rightarrow> (case map_of rd col of None \<Rightarrow> False | Some v \<Rightarrow> True))"

text \<open>The stored value at a key, if any.\<close>

definition entry :: "SparseMatrix \<Rightarrow> int \<Rightarrow> int \<Rightarrow> int option" where
  "entry m row col = (case map_of (data m) row of None \<Rightarrow> None | Some rd \<Rightarrow> map_of rd col)"

section \<open>The operators\<close>

text \<open>
  The first pass of \<^verbatim>\<open>add\<close> and \<^verbatim>\<open>subtract\<close>:
  \<^verbatim>\<open>for row in self.data: for col in self.data[row]:
      result.set_element(row, col, self.get_element(row, col))\<close>
\<close>

definition copy_loop :: "SparseMatrix \<Rightarrow> SparseMatrix \<Rightarrow> SparseMatrix" where
  "copy_loop self result =
     fold (\<lambda>row res.
            fold (\<lambda>col res'. set_element res' row col (get_element self row col))
                 (keys (dict_get (data self) row [])) res)
          (keys (data self)) result"

text \<open>
  The second pass, with \<open>op\<close> the \<^verbatim>\<open>+\<close> of \<^verbatim>\<open>add\<close> or the \<^verbatim>\<open>-\<close> of \<^verbatim>\<open>subtract\<close>:
  \<^verbatim>\<open>for row in matrix.data: for col in matrix.data[row]:
      result.set_element(row, col, result.get_element(row, col) op matrix.get_element(row, col))\<close>
\<close>

definition accum_loop ::
  "(int \<Rightarrow> int \<Rightarrow> int) \<Rightarrow> SparseMatrix \<Rightarrow> SparseMatrix \<Rightarrow> SparseMatrix" where
  "accum_loop op matrix result =
     fold (\<lambda>row res.
            fold (\<lambda>col res'. set_element res' row col
                               (op (get_element res' row col) (get_element matrix row col)))
                 (keys (dict_get (data matrix) row [])) res)
          (keys (data matrix)) result"

definition add :: "SparseMatrix \<Rightarrow> SparseMatrix \<Rightarrow> exn + SparseMatrix" where
  "add self matrix =
     (if rows self \<noteq> rows matrix \<or> cols self \<noteq> cols matrix then Inl DimensionMismatch
      else Inr (accum_loop (+) matrix (copy_loop self (init (rows self) (cols self)))))"

definition subtract :: "SparseMatrix \<Rightarrow> SparseMatrix \<Rightarrow> exn + SparseMatrix" where
  "subtract self matrix =
     (if rows self \<noteq> rows matrix \<or> cols self \<noteq> cols matrix then Inl DimensionMismatch
      else Inr (accum_loop (-) matrix (copy_loop self (init (rows self) (cols self)))))"

text \<open>
  \<^verbatim>\<open>for k in range(self.cols): sum_product += self.get_element(row, k) * matrix.get_element(k, col)\<close>;
  \<^verbatim>\<open>range(n)\<close> is empty for \<open>n \<le> 0\<close>, as \<open>[0..n - 1]\<close> is.
\<close>

definition sum_product :: "SparseMatrix \<Rightarrow> SparseMatrix \<Rightarrow> int \<Rightarrow> int \<Rightarrow> int" where
  "sum_product self matrix row col =
     fold (\<lambda>k s. s + get_element self row k * get_element matrix k col) [0..cols self - 1] 0"

definition multiply_loop :: "SparseMatrix \<Rightarrow> SparseMatrix \<Rightarrow> SparseMatrix \<Rightarrow> SparseMatrix" where
  "multiply_loop self matrix result =
     fold (\<lambda>row res.
            fold (\<lambda>col res'.
                    (let s = sum_product self matrix row col
                     in if s \<noteq> 0 then set_element res' row col s else res'))
                 [0..cols matrix - 1] res)
          (keys (data self)) result"

definition multiply :: "SparseMatrix \<Rightarrow> SparseMatrix \<Rightarrow> exn + SparseMatrix" where
  "multiply self matrix =
     (if cols self \<noteq> rows matrix then Inl DimensionMismatch
      else Inr (multiply_loop self matrix (init (rows self) (cols matrix))))"

section \<open>The operators on a heap of objects\<close>

text \<open>
  The functional model above passes matrices by value. To state what the operators write,
  the objects are put in a store: the \<open>SparseMatrix\<close> instances (\<open>rows\<close>, \<open>cols\<close> and the
  address of the dict \<open>data\<close>), the outer dicts (row to the address of the row's dict) and
  the inner dicts (column to value). An address is an index into its list; allocation
  appends. Integers are immutable values. A reference of a Python program always points to
  an allocated object; the theorems assume it of the operands (\<open>allocated\<close>).
\<close>

record heap =
  instances :: "(int \<times> int \<times> nat) list"
  outers :: "(int \<times> nat) list list"
  inners :: "(int \<times> int) list list"

definition h_rows :: "heap \<Rightarrow> nat \<Rightarrow> int" where
  "h_rows h p = fst (instances h ! p)"

definition h_cols :: "heap \<Rightarrow> nat \<Rightarrow> int" where
  "h_cols h p = fst (snd (instances h ! p))"

text \<open>The address of \<open>self.data\<close>.\<close>

definition h_data :: "heap \<Rightarrow> nat \<Rightarrow> nat" where
  "h_data h p = snd (snd (instances h ! p))"

text \<open>\<open>SparseMatrix(r, c)\<close>: a new instance with a new empty dict.\<close>

definition h_init :: "heap \<Rightarrow> int \<Rightarrow> int \<Rightarrow> nat \<times> heap" where
  "h_init h r c =
     (length (instances h),
      h\<lparr>instances := instances h @ [(r, c, length (outers h))], outers := outers h @ [[]]\<rparr>)"

text \<open>
  \<^verbatim>\<open>self.data.get(row, {}).get(col, 0)\<close>. The default \<^verbatim>\<open>{}\<close> is a temporary that is
  stored nowhere; it is left out of the heap.
\<close>

definition h_get_element :: "heap \<Rightarrow> nat \<Rightarrow> int \<Rightarrow> int \<Rightarrow> int" where
  "h_get_element h self row col =
     (case map_of (outers h ! h_data h self) row of None \<Rightarrow> 0
      | Some q \<Rightarrow> dict_get (inners h ! q) col 0)"

text \<open>
  \<^verbatim>\<open>if row not in self.data: self.data[row] = {}\<close> allocates a new inner dict and writes
  the outer dict; \<^verbatim>\<open>self.data[row][col] = value\<close> writes the inner dict of the row in
  place. The row is present then, so the \<open>None\<close> case of the second lookup is not reached.
\<close>

definition h_set_element :: "heap \<Rightarrow> nat \<Rightarrow> int \<Rightarrow> int \<Rightarrow> int \<Rightarrow> heap" where
  "h_set_element h self row col val =
     (let d = h_data h self;
          h1 = (if map_of (outers h ! d) row = None
                then h\<lparr>inners := inners h @ [[]],
                       outers := (outers h)[d := AList.update row (length (inners h)) (outers h ! d)]\<rparr>
                else h)
      in case map_of (outers h1 ! d) row of None \<Rightarrow> h1
         | Some q \<Rightarrow> h1\<lparr>inners := (inners h1)[q := AList.update col val (inners h1 ! q)]\<rparr>)"

text \<open>The keys of \<open>self.data[row]\<close>, read when the inner loop starts.\<close>

definition h_row_keys :: "heap \<Rightarrow> nat \<Rightarrow> int \<Rightarrow> int list" where
  "h_row_keys h self row =
     (case map_of (outers h ! h_data h self) row of None \<Rightarrow> []
      | Some q \<Rightarrow> keys (inners h ! q))"

text \<open>
  The loops iterate the keys that the operand's dicts hold when each loop starts. (Python
  raises \<open>RuntimeError\<close> when a dict changes size under its iterator; the theorem of claim
  C8 below shows that the operands' dicts are never written.)
\<close>

definition h_copy_loop :: "heap \<Rightarrow> nat \<Rightarrow> nat \<Rightarrow> heap" where
  "h_copy_loop h self result =
     fold (\<lambda>row h'.
            fold (\<lambda>col h''. h_set_element h'' result row col (h_get_element h'' self row col))
                 (h_row_keys h' self row) h')
          (keys (outers h ! h_data h self)) h"

definition h_accum_loop :: "(int \<Rightarrow> int \<Rightarrow> int) \<Rightarrow> heap \<Rightarrow> nat \<Rightarrow> nat \<Rightarrow> heap" where
  "h_accum_loop op h matrix result =
     fold (\<lambda>row h'.
            fold (\<lambda>col h''. h_set_element h'' result row col
                               (op (h_get_element h'' result row col)
                                   (h_get_element h'' matrix row col)))
                 (h_row_keys h' matrix row) h')
          (keys (outers h ! h_data h matrix)) h"

definition h_add :: "heap \<Rightarrow> nat \<Rightarrow> nat \<Rightarrow> (exn + nat) \<times> heap" where
  "h_add h self matrix =
     (if h_rows h self \<noteq> h_rows h matrix \<or> h_cols h self \<noteq> h_cols h matrix
      then (Inl DimensionMismatch, h)
      else (case h_init h (h_rows h self) (h_cols h self) of
              (result, h1) \<Rightarrow>
                (Inr result, h_accum_loop (+) (h_copy_loop h1 self result) matrix result)))"

definition h_subtract :: "heap \<Rightarrow> nat \<Rightarrow> nat \<Rightarrow> (exn + nat) \<times> heap" where
  "h_subtract h self matrix =
     (if h_rows h self \<noteq> h_rows h matrix \<or> h_cols h self \<noteq> h_cols h matrix
      then (Inl DimensionMismatch, h)
      else (case h_init h (h_rows h self) (h_cols h self) of
              (result, h1) \<Rightarrow>
                (Inr result, h_accum_loop (-) (h_copy_loop h1 self result) matrix result)))"

definition h_sum_product :: "heap \<Rightarrow> nat \<Rightarrow> nat \<Rightarrow> int \<Rightarrow> int \<Rightarrow> int" where
  "h_sum_product h self matrix row col =
     fold (\<lambda>k s. s + h_get_element h self row k * h_get_element h matrix k col)
          [0..h_cols h self - 1] 0"

definition h_multiply_loop :: "heap \<Rightarrow> nat \<Rightarrow> nat \<Rightarrow> nat \<Rightarrow> heap" where
  "h_multiply_loop h self matrix result =
     fold (\<lambda>row h'.
            fold (\<lambda>col h''.
                    (let s = h_sum_product h'' self matrix row col
                     in if s \<noteq> 0 then h_set_element h'' result row col s else h''))
                 [0..h_cols h' matrix - 1] h')
          (keys (outers h ! h_data h self)) h"

definition h_multiply :: "heap \<Rightarrow> nat \<Rightarrow> nat \<Rightarrow> (exn + nat) \<times> heap" where
  "h_multiply h self matrix =
     (if h_cols h self \<noteq> h_rows h matrix then (Inl DimensionMismatch, h)
      else (case h_init h (h_rows h self) (h_cols h matrix) of
              (result, h1) \<Rightarrow> (Inr result, h_multiply_loop h1 self matrix result)))"

text \<open>The matrix value that the instance at \<open>p\<close> holds in the heap \<open>h\<close>.\<close>

definition h_dicts :: "heap \<Rightarrow> nat \<Rightarrow> (int \<times> (int \<times> int) list) list" where
  "h_dicts h p = map (\<lambda>(row, q). (row, inners h ! q)) (outers h ! h_data h p)"

definition h_matrix :: "heap \<Rightarrow> nat \<Rightarrow> SparseMatrix" where
  "h_matrix h p =
     \<lparr>rows = h_rows h p, cols = h_cols h p,
      data = h_dicts h p\<rparr>"

text \<open>The instance at \<open>p\<close>, its outer dict and its inner dicts are allocated in \<open>h\<close>.\<close>

definition allocated :: "heap \<Rightarrow> nat \<Rightarrow> bool" where
  "allocated h p \<longleftrightarrow>
     p < length (instances h) \<and> h_data h p < length (outers h) \<and>
     (\<forall>q \<in> snd ` set (outers h ! h_data h p). q < length (inners h))"

text \<open>Every object of \<open>h\<close> is in \<open>h'\<close> at the same address with the same contents.\<close>

definition extends :: "heap \<Rightarrow> heap \<Rightarrow> bool" where
  "extends h h' \<longleftrightarrow>
     take (length (instances h)) (instances h') = instances h \<and>
     take (length (outers h)) (outers h') = outers h \<and>
     take (length (inners h)) (inners h') = inners h"

text \<open>
  The instance at \<open>p\<close> in \<open>h'\<close>, its outer dict and all its inner dicts were allocated after
  \<open>h\<close>: it shares no object with any matrix of \<open>h\<close>.
\<close>

definition fresh_matrix :: "heap \<Rightarrow> heap \<Rightarrow> nat \<Rightarrow> bool" where
  "fresh_matrix h h' p \<longleftrightarrow>
     length (instances h) \<le> p \<and> p < length (instances h') \<and>
     length (outers h) \<le> h_data h' p \<and> h_data h' p < length (outers h') \<and>
     (\<forall>q \<in> snd ` set (outers h' ! h_data h' p). length (inners h) \<le> q \<and> q < length (inners h'))"

text \<open>
  What an operator may do to the heap \<open>h\<close> when called on \<open>self\<close> and \<open>matrix\<close>: old
  objects keep their contents, so both operands hold the same matrix value as before; on an
  error the heap is as it was; a returned matrix is fresh.
\<close>

definition frame :: "heap \<Rightarrow> nat \<Rightarrow> nat \<Rightarrow> (exn + nat) \<times> heap \<Rightarrow> bool" where
  "frame h self matrix out =
     (case out of (res, h') \<Rightarrow>
        extends h h' \<and> h_matrix h' self = h_matrix h self \<and>
        h_matrix h' matrix = h_matrix h matrix \<and>
        (case res of Inl e \<Rightarrow> h' = h | Inr p \<Rightarrow> fresh_matrix h h' p))"

text \<open>Invariants of the loops for the result under construction.\<close>

definition owns :: "heap \<Rightarrow> nat \<Rightarrow> heap \<Rightarrow> bool" where
  "owns h p h' \<longleftrightarrow> extends h h' \<and> fresh_matrix h h' p"

definition private_rows :: "heap \<Rightarrow> nat \<Rightarrow> heap \<Rightarrow> bool" where
  "private_rows h p h' \<longleftrightarrow> owns h p h' \<and> distinct (map snd (outers h' ! h_data h' p))"

text \<open>The outcome of a heap operator is the outcome of the functional one.\<close>

definition refines :: "(exn + nat) \<times> heap \<Rightarrow> exn + SparseMatrix \<Rightarrow> bool" where
  "refines out r =
     (case out of (res, h') \<Rightarrow>
        (case res of Inl e \<Rightarrow> r = Inl e | Inr p \<Rightarrow> r = Inr (h_matrix h' p)))"

section \<open>Text encoding: the built-ins\<close>

text \<open>
  Text is a \<open>string\<close>, a list of 8-bit characters read as the code points 0 to 255.
  \<^verbatim>\<open>str.strip()\<close> removes the characters for which \<^verbatim>\<open>str.isspace()\<close> holds;
  \<^verbatim>\<open>int()\<close> skips a smaller set (it does not skip the separators 0x1C to 0x1F).
\<close>

definition is_space :: "char \<Rightarrow> bool" where
  "is_space c \<longleftrightarrow> (of_char c :: nat) \<in> set [9, 10, 11, 12, 13, 28, 29, 30, 31, 32, 133, 160]"

definition is_int_space :: "char \<Rightarrow> bool" where
  "is_int_space c \<longleftrightarrow> (of_char c :: nat) \<in> set [9, 10, 11, 12, 13, 32, 133, 160]"

definition strip_with :: "(char \<Rightarrow> bool) \<Rightarrow> string \<Rightarrow> string" where
  "strip_with P s = rev (dropWhile P (rev (dropWhile P s)))"

text \<open>\<^verbatim>\<open>s.strip()\<close>\<close>

definition strip :: "string \<Rightarrow> string" where
  "strip s = strip_with is_space s"

text \<open>
  \<^verbatim>\<open>s.split(sep)\<close> for a separator of one character: the pieces between the separators,
  at least one piece.
\<close>

fun split :: "char \<Rightarrow> string \<Rightarrow> string list" where
  "split sep [] = [[]]"
| "split sep (c # cs) =
     (if c = sep then [] # split sep cs
      else (case split sep cs of [] \<Rightarrow> [[c]] | p # ps \<Rightarrow> (c # p) # ps))"

text \<open>
  \<^verbatim>\<open>for line in file\<close>. The argument is the text as the file object of
  \<^verbatim>\<open>open(file_path, 'r')\<close> delivers it: decoded, and with every line ending (CR, CR LF)
  already translated to LF by the universal-newlines mode. On that text a line ends at LF
  only. The result is the lines, each with its terminating newline, the last one without
  when the text does not end in a newline.
\<close>

fun file_lines :: "string \<Rightarrow> string list" where
  "file_lines [] = []"
| "file_lines (c # cs) =
     (if c = CHR 0x0A then [c] # file_lines cs
      else (case file_lines cs of [] \<Rightarrow> [[c]] | l # ls \<Rightarrow> (c # l) # ls))"

text \<open>\<^verbatim>\<open>xs[i]\<close> for \<open>i \<ge> 0\<close>\<close>

definition list_index :: "'a list \<Rightarrow> nat \<Rightarrow> exn + 'a" where
  "list_index xs i = (if i < length xs then Inr (xs ! i) else Inl IndexError)"

text \<open>\<^verbatim>\<open>s[1:-1]\<close>: the string without its first and its last character, empty for fewer
  than two characters.\<close>

definition slice_1_m1 :: "string \<Rightarrow> string" where
  "slice_1_m1 s = butlast (tl s)"

definition is_digit :: "char \<Rightarrow> bool" where
  "is_digit c \<longleftrightarrow> 48 \<le> (of_char c :: nat) \<and> (of_char c :: nat) \<le> 57"

definition digit_val :: "char \<Rightarrow> nat" where
  "digit_val c = of_char c - 48"

text \<open>
  The digits of an \<^verbatim>\<open>int()\<close> literal after the first one: decimal digits, with single
  underscores allowed between two digits.
\<close>

fun int_digits :: "nat \<Rightarrow> string \<Rightarrow> nat option" where
  "int_digits acc [] = Some acc"
| "int_digits acc (c # cs) =
     (if is_digit c then int_digits (10 * acc + digit_val c) cs
      else if c = CHR ''_'' then
        (case cs of [] \<Rightarrow> None
         | d # ds \<Rightarrow> if is_digit d then int_digits (10 * acc + digit_val d) ds else None)
      else None)"

definition parse_nat :: "string \<Rightarrow> nat option" where
  "parse_nat s =
     (case s of [] \<Rightarrow> None
      | c # cs \<Rightarrow> if is_digit c then int_digits (digit_val c) cs else None)"

text \<open>
  Integers are unbounded, but CPython limits the conversions between \<^verbatim>\<open>int\<close> and decimal
  text: \<^verbatim>\<open>int(s)\<close> and \<^verbatim>\<open>str(n)\<close> raise \<open>ValueError\<close> when the number has more than
  \<^verbatim>\<open>sys.get_int_max_str_digits()\<close> digits, 4300 unless the interpreter is configured
  otherwise. The sign, the whitespace and the underscores do not count; leading zeros do.
\<close>

definition max_str_digits :: nat where
  "max_str_digits = 4300"

text \<open>The digits of an \<^verbatim>\<open>int()\<close> literal, after the sign: their syntax, then their number.\<close>

definition int_literal :: "string \<Rightarrow> exn + nat" where
  "int_literal s =
     (case parse_nat s of None \<Rightarrow> Inl ValueError
      | Some n \<Rightarrow>
          if max_str_digits < length (filter is_digit s) then Inl ValueError else Inr n)"

text \<open>
  \<^verbatim>\<open>int(s)\<close> in base 10: surrounding whitespace, an optional sign, the digits; anything
  else raises \<open>ValueError\<close>.
\<close>

definition py_int :: "string \<Rightarrow> exn + int" where
  "py_int s =
     (case strip_with is_int_space s of [] \<Rightarrow> Inl ValueError
      | c # cs \<Rightarrow>
          if c = CHR ''-'' then
            (case int_literal cs of Inl e \<Rightarrow> Inl e | Inr n \<Rightarrow> Inr (- int n))
          else if c = CHR ''+'' then
            (case int_literal cs of Inl e \<Rightarrow> Inl e | Inr n \<Rightarrow> Inr (int n))
          else
            (case int_literal (c # cs) of Inl e \<Rightarrow> Inl e | Inr n \<Rightarrow> Inr (int n)))"

text \<open>The decimal digits of a natural number, no leading zero.\<close>

fun str_nat :: "nat \<Rightarrow> string" where
  "str_nat n =
     (if n < 10 then [char_of (48 + n)] else str_nat (n div 10) @ [char_of (48 + n mod 10)])"

declare str_nat.simps [simp del]

text \<open>The decimal numeral of an integer: a minus sign when negative, then the digits.\<close>

definition decimal :: "int \<Rightarrow> string" where
  "decimal i = (if i < 0 then CHR ''-'' # str_nat (nat (- i)) else str_nat (nat i))"

text \<open>
  \<^verbatim>\<open>str(n)\<close> for an integer, also inside an f-string: the decimal numeral, or \<open>ValueError\<close>
  when it has more than \<open>max_str_digits\<close> digits.
\<close>

definition py_str :: "int \<Rightarrow> exn + string" where
  "py_str i =
     (if max_str_digits < length (str_nat (nat \<bar>i\<bar>)) then Inl ValueError else Inr (decimal i))"

section \<open>Text encoding: \<open>from_file\<close> and \<open>__str__\<close>\<close>

text \<open>\<^verbatim>\<open>except ValueError\<close> catches the built-in \<open>ValueError\<close> and the two errors of this
  program, which are \<open>ValueError\<close>s as well.\<close>

definition is_ValueError :: "exn \<Rightarrow> bool" where
  "is_ValueError e \<longleftrightarrow> e = ValueError \<or> e = FormatError \<or> e = DimensionMismatch"

text \<open>\<^verbatim>\<open>lines = [line.strip() for line in file if line.strip()]\<close>\<close>

definition nonblank_lines :: "string \<Rightarrow> string list" where
  "nonblank_lines content = map strip (filter (\<lambda>line. strip line \<noteq> []) (file_lines content))"

text \<open>\<^verbatim>\<open>int(lines[i].split('=')[1])\<close>\<close>

definition header_field :: "string list \<Rightarrow> nat \<Rightarrow> exn + int" where
  "header_field lines i =
     (case list_index lines i of Inl e \<Rightarrow> Inl e
      | Inr line \<Rightarrow>
          (case list_index (split CHR ''='' line) 1 of Inl e \<Rightarrow> Inl e
           | Inr tok \<Rightarrow> py_int tok))"

text \<open>
  \<^verbatim>\<open>row, col, value = map(int, line[1:-1].split(','))\<close>: \<open>ValueError\<close> from \<^verbatim>\<open>int\<close> on a
  token, and \<open>ValueError\<close> from the unpacking when there are not exactly three tokens.
\<close>

definition parse_entry :: "string \<Rightarrow> exn + (int \<times> int \<times> int)" where
  "parse_entry line =
     (case map py_int (split CHR '','' (slice_1_m1 line)) of
        [Inr row, Inr col, Inr val] \<Rightarrow> Inr (row, col, val)
      | _ \<Rightarrow> Inl ValueError)"

text \<open>The loop over \<^verbatim>\<open>lines[2:]\<close>, with its \<^verbatim>\<open>try\<close>/\<^verbatim>\<open>except ValueError\<close>.\<close>

fun load_entries :: "string list \<Rightarrow> SparseMatrix \<Rightarrow> exn + SparseMatrix" where
  "load_entries [] matrix = Inr matrix"
| "load_entries (line # ls) matrix =
     (case parse_entry line of
        Inl e \<Rightarrow> if is_ValueError e then Inl FormatError else Inl e
      | Inr (row, col, val) \<Rightarrow> load_entries ls (set_element matrix row col val))"

text \<open>
  \<open>from_file\<close> on the text of the file (\<open>from_text\<close> in the specification); \<open>content\<close>
  is the text that the opened file delivers, see \<open>file_lines\<close>. The first \<^verbatim>\<open>try\<close>
  catches \<open>IndexError\<close> and \<open>ValueError\<close>.
\<close>

definition from_text :: "string \<Rightarrow> exn + SparseMatrix" where
  "from_text content =
     (let lines = nonblank_lines content;
          header = (case header_field lines 0 of Inl e \<Rightarrow> Inl e
                    | Inr r \<Rightarrow> (case header_field lines 1 of Inl e \<Rightarrow> Inl e
                                | Inr c \<Rightarrow> Inr (r, c)))
      in case header of
           Inl e \<Rightarrow> if e = IndexError \<or> is_ValueError e then Inl FormatError else Inl e
         | Inr (r, c) \<Rightarrow> load_entries (drop 2 lines) (init r c))"

text \<open>
  \<^verbatim>\<open>f"({row}, {col}, {self.data[row][col]})\n"\<close>: the three numbers are formatted from left
  to right, and the f-string raises what \<^verbatim>\<open>str\<close> raises.
\<close>

definition entry_line :: "int \<Rightarrow> int \<Rightarrow> int \<Rightarrow> exn + string" where
  "entry_line row col val =
     (case py_str row of Inl e \<Rightarrow> Inl e
      | Inr r \<Rightarrow>
          (case py_str col of Inl e \<Rightarrow> Inl e
           | Inr c \<Rightarrow>
               (case py_str val of Inl e \<Rightarrow> Inl e
                | Inr v \<Rightarrow> Inr (''('' @ r @ '', '' @ c @ '', '' @ v @ '')'' @ [CHR 0x0A]))))"

text \<open>\<^verbatim>\<open>result += line\<close>, where building the line may raise; an exception ends the loops.\<close>

definition append_text :: "exn + string \<Rightarrow> exn + string \<Rightarrow> exn + string" where
  "append_text result line =
     (case result of Inl e \<Rightarrow> Inl e
      | Inr s \<Rightarrow> (case line of Inl e \<Rightarrow> Inl e | Inr l \<Rightarrow> Inr (s @ l)))"

text \<open>
  \<open>__str__\<close> (\<open>to_text\<close> in the specification). \<open>self.data[row][col]\<close> indexes keys that
  the loops take from the dicts themselves, so it is the lookup of \<open>get_element\<close>. The
  result is \<open>ValueError\<close> when a dimension, a stored key or a stored value has too many digits
  for \<^verbatim>\<open>str\<close>.
\<close>

definition to_text :: "SparseMatrix \<Rightarrow> exn + string" where
  "to_text self =
     (case py_str (rows self) of Inl e \<Rightarrow> Inl e
      | Inr r \<Rightarrow>
          (case py_str (cols self) of Inl e \<Rightarrow> Inl e
           | Inr c \<Rightarrow>
               fold (\<lambda>row res.
                      fold (\<lambda>col res'.
                              append_text res' (entry_line row col (get_element self row col)))
                           (keys (dict_get (data self) row [])) res)
                    (keys (data self))
                    (Inr (''rows='' @ r @ [CHR 0x0A] @ ''cols='' @ c @ [CHR 0x0A]))))"

text \<open>\<^verbatim>\<open>from_text(m.to_text())\<close>: an exception of \<open>to_text\<close> propagates.\<close>

definition roundtrip :: "SparseMatrix \<Rightarrow> exn + SparseMatrix" where
  "roundtrip m = (case to_text m of Inl e \<Rightarrow> Inl e | Inr s \<Rightarrow> from_text s)"

section \<open>Notions for the round trip through text\<close>

text \<open>The value of a string of decimal digits read after the value \<open>a\<close>.\<close>

definition dec_val :: "nat \<Rightarrow> string \<Rightarrow> nat" where
  "dec_val = foldl (\<lambda>a c. 10 * a + digit_val c)"

text \<open>The characters of a decimal numeral.\<close>

definition num_char :: "char \<Rightarrow> bool" where
  "num_char c \<longleftrightarrow> is_digit c \<or> c = CHR ''-''"

text \<open>A line that \<open>strip\<close> and the line iteration leave as it is.\<close>

definition good_line :: "string \<Rightarrow> bool" where
  "good_line l \<longleftrightarrow> l \<noteq> [] \<and> \<not> is_space (hd l) \<and> \<not> is_space (last l) \<and> CHR 0x0A \<notin> set l"

text \<open>The lines that \<open>to_text\<close> writes when no number is too long, without their newline.\<close>

definition header_line :: "string \<Rightarrow> int \<Rightarrow> string" where
  "header_line name n = name @ ''='' @ decimal n"

definition entry_body :: "int \<times> int \<times> int \<Rightarrow> string" where
  "entry_body t = (case t of (row, col, val) \<Rightarrow>
     ''('' @ decimal row @ '', '' @ decimal col @ '', '' @ decimal val @ '')'')"

text \<open>The stored entries in the order \<open>to_text\<close> writes them.\<close>

definition entries :: "SparseMatrix \<Rightarrow> (int \<times> int \<times> int) list" where
  "entries m = concat (map (\<lambda>row. map (\<lambda>col. (row, col, get_element m row col))
                                        (keys (dict_get (data m) row []))) (keys (data m)))"

text \<open>The text that \<open>to_text\<close> writes when no number is too long.\<close>

definition text_of :: "SparseMatrix \<Rightarrow> string" where
  "text_of m = concat (map (\<lambda>l. l @ [CHR 0x0A])
     (header_line ''rows'' (rows m) # header_line ''cols'' (cols m) # map entry_body (entries m)))"

text \<open>The integer has at most \<open>max_str_digits\<close> decimal digits.\<close>

definition digits_ok :: "int \<Rightarrow> bool" where
  "digits_ok i \<longleftrightarrow> length (str_nat (nat \<bar>i\<bar>)) \<le> max_str_digits"

text \<open>
  Every number that \<open>to_text\<close> prints has at most \<open>max_str_digits\<close> digits: \<open>rows\<close>,
  \<open>cols\<close>, and the row key, the column key and the value of every stored entry.
\<close>

definition fits :: "SparseMatrix \<Rightarrow> bool" where
  "fits m \<longleftrightarrow>
     digits_ok (rows m) \<and> digits_ok (cols m) \<and>
     (\<forall>t \<in> set (entries m). case t of (row, col, val) \<Rightarrow>
        digits_ok row \<and> digits_ok col \<and> digits_ok val)"

section \<open>Example matrices\<close>

text \<open>
  \<open>exA\<close> and \<open>exB\<close> are the matrices A and B of the example in section 8 of the
  specification; \<open>exC\<close> has another shape; \<open>exD\<close> cancels an entry of \<open>exA\<close> and stores a
  key that \<open>exA\<close> does not.
\<close>

definition exA :: SparseMatrix where
  "exA = \<lparr>rows = 2, cols = 2, data = [(0, [(0, 1)]), (1, [(1, 2)])]\<rparr>"

definition exB :: SparseMatrix where
  "exB = \<lparr>rows = 2, cols = 2, data = [(0, [(0, 3), (1, 4)])]\<rparr>"

definition exC :: SparseMatrix where
  "exC = \<lparr>rows = 3, cols = 1, data = [(2, [(0, 5)]), (0, [(0, - 1)])]\<rparr>"

definition exD :: SparseMatrix where
  "exD = \<lparr>rows = 2, cols = 2, data = [(1, [(1, - 2), (0, 7)])]\<rparr>"

text \<open>
  A 1 by 1 matrix whose entry has 2151 digits, and its product with itself, whose entry has
  4301 digits.
\<close>

definition half :: int where
  "half = 10 ^ (max_str_digits div 2)"

definition huge :: int where
  "huge = 10 ^ max_str_digits"

definition exP :: SparseMatrix where
  "exP = \<lparr>rows = 1, cols = 1, data = [(0, [(0, half)])]\<rparr>"

definition exBig :: SparseMatrix where
  "exBig = \<lparr>rows = 1, cols = 1, data = [(0, [(0, huge)])]\<rparr>"

text \<open>The two malformed inputs of section 8 of the specification.\<close>

definition text_missing_cols :: string where
  "text_missing_cols = ''rows=2'' @ [CHR 0x0A]"

definition text_short_entry :: string where
  "text_short_entry = ''rows=2'' @ [CHR 0x0A] @ ''cols=2'' @ [CHR 0x0A] @ ''(1,1)'' @ [CHR 0x0A]"

text \<open>A heap holding \<open>exA\<close> at instance 0, \<open>exD\<close> at instance 1 and a 3 by 1 matrix at
  instance 2.\<close>

definition exH :: heap where
  "exH = \<lparr>instances = [(2, 2, 0), (2, 2, 1), (3, 1, 2)],
          outers = [[(0, 0), (1, 1)], [(1, 2)], [(2, 3)]],
          inners = [[(0, 1)], [(1, 2)], [(1, - 2), (0, 7)], [(0, 5)]]\<rparr>"

lemmas ex_defs = exA_def exB_def exC_def exD_def
lemmas op_defs = add_def subtract_def multiply_def multiply_loop_def sum_product_def copy_loop_def accum_loop_def
      keys_def init_def set_element_def get_element_def dict_get_def Let_def upto.simps has_entry_def wf_matrix_def

section \<open>Stored entries under \<open>set_element\<close>\<close>

lemma entry_init [simp]: "entry (init r c) i j = None"
  by (simp add: entry_def init_def)

lemma rows_init [simp]: "rows (init r c) = r"
  by (simp add: init_def)

lemma cols_init [simp]: "cols (init r c) = c"
  by (simp add: init_def)

lemma wf_init [simp]: "wf_matrix (init r c)"
  by (simp add: wf_matrix_def init_def)

lemma rows_set_element [simp]: "rows (set_element m r c v) = rows m"
  by (simp add: set_element_def Let_def)

lemma cols_set_element [simp]: "cols (set_element m r c v) = cols m"
  by (simp add: set_element_def Let_def)

lemma entry_set_element:
  "entry (set_element m r c v) i j = (if i = r \<and> j = c then Some v else entry m i j)"
  by (auto simp: entry_def set_element_def Let_def dict_get_def update_conv'
      split: option.splits)

lemma get_element_entry: "get_element m i j = (case entry m i j of None \<Rightarrow> 0 | Some v \<Rightarrow> v)"
  by (simp add: get_element_def entry_def dict_get_def split: option.splits)

lemma has_entry_entry: "has_entry m i j \<longleftrightarrow> entry m i j \<noteq> None"
  by (simp add: has_entry_def entry_def split: option.splits)

lemma map_of_keys: "k \<in> set (keys d) \<longleftrightarrow> map_of d k \<noteq> None"
  by (simp add: keys_def map_of_eq_None_iff)

lemma in_keys_entry:
  "i \<in> set (keys (data m)) \<and> j \<in> set (keys (dict_get (data m) i [])) \<longleftrightarrow> entry m i j \<noteq> None"
  by (auto simp: map_of_keys entry_def dict_get_def split: option.splits)

lemma entry_fold_set:
  "entry (fold (\<lambda>col res'. set_element res' row col (g col)) cs res) i j =
     (if i = row \<and> j \<in> set cs then Some (g j) else entry res i j)"
  by (induction cs arbitrary: res) (auto simp: entry_set_element)

lemma entry_fold_fold_set:
  "entry (fold (\<lambda>row res. fold (\<lambda>col res'. set_element res' row col (f row col)) (cs row) res)
            rs res) i j =
     (if i \<in> set rs \<and> j \<in> set (cs i) then Some (f i j) else entry res i j)"
  by (induction rs arbitrary: res) (auto simp: entry_fold_set)

lemma entry_fold_accum:
  "distinct cs \<Longrightarrow>
   entry (fold (\<lambda>col res'. set_element res' row col (op (get_element res' row col) (g col)))
            cs res) i j =
     (if i = row \<and> j \<in> set cs then Some (op (get_element res i j) (g j)) else entry res i j)"
  by (induction cs arbitrary: res) (auto simp: entry_set_element get_element_entry)

lemma get_element_fold_accum:
  "distinct cs \<Longrightarrow>
   get_element (fold (\<lambda>col res'. set_element res' row col (op (get_element res' row col) (g col)))
            cs res) i j =
     (if i = row \<and> j \<in> set cs then op (get_element res i j) (g j) else get_element res i j)"
  by (subst get_element_entry, subst entry_fold_accum, assumption)
     (simp add: get_element_entry)

lemma entry_fold_fold_accum:
  "distinct rs \<Longrightarrow> (\<forall>r \<in> set rs. distinct (cs r)) \<Longrightarrow>
   entry (fold (\<lambda>row res. fold (\<lambda>col res'. set_element res' row col
                               (op (get_element res' row col) (g row col))) (cs row) res)
            rs res) i j =
     (if i \<in> set rs \<and> j \<in> set (cs i) then Some (op (get_element res i j) (g i j))
      else entry res i j)"
  by (induction rs arbitrary: res) (auto simp: entry_fold_accum get_element_fold_accum)

lemma wf_distinct_keys: "wf_matrix m \<Longrightarrow> distinct (keys (data m))"
  by (simp add: wf_matrix_def keys_def)

lemma wf_distinct_row: "wf_matrix m \<Longrightarrow> distinct (keys (dict_get (data m) r []))"
  by (auto simp: wf_matrix_def keys_def dict_get_def split: option.splits dest!: map_of_SomeD)

lemma entry_copy_loop:
  "entry (copy_loop self res) i j =
     (case entry self i j of None \<Rightarrow> entry res i j | Some v \<Rightarrow> Some v)"
  unfolding copy_loop_def entry_fold_fold_set
  using in_keys_entry [of i self j]
  by (auto simp: get_element_entry split: option.splits)

lemma entry_accum_loop:
  assumes "wf_matrix matrix"
  shows "entry (accum_loop op matrix res) i j =
     (case entry matrix i j of None \<Rightarrow> entry res i j
      | Some v \<Rightarrow> Some (op (get_element res i j) v))"
proof -
  have d: "distinct (keys (data matrix))"
    "\<forall>r \<in> set (keys (data matrix)). distinct (keys (dict_get (data matrix) r []))"
    using assms by (simp_all add: wf_distinct_keys wf_distinct_row)
  show ?thesis
    unfolding accum_loop_def entry_fold_fold_accum [OF d]
    using in_keys_entry [of i matrix j]
    by (auto simp: get_element_entry split: option.splits)
qed

lemma rows_fold_inv:
  "(\<And>x s. rows (f x s) = rows s) \<Longrightarrow> rows (fold f xs s) = rows s"
  by (induction xs arbitrary: s) auto

lemma cols_fold_inv:
  "(\<And>x s. cols (f x s) = cols s) \<Longrightarrow> cols (fold f xs s) = cols s"
  by (induction xs arbitrary: s) auto

lemma rows_copy_loop [simp]: "rows (copy_loop self res) = rows res"
  unfolding copy_loop_def by (intro rows_fold_inv) simp

lemma cols_copy_loop [simp]: "cols (copy_loop self res) = cols res"
  unfolding copy_loop_def by (intro cols_fold_inv) simp

lemma rows_accum_loop [simp]: "rows (accum_loop op matrix res) = rows res"
  unfolding accum_loop_def by (intro rows_fold_inv) simp

lemma cols_accum_loop [simp]: "cols (accum_loop op matrix res) = cols res"
  unfolding accum_loop_def by (intro cols_fold_inv) simp

lemma rows_multiply_loop [simp]: "rows (multiply_loop self matrix res) = rows res"
  unfolding multiply_loop_def by (intro rows_fold_inv) (simp add: Let_def)

lemma cols_multiply_loop [simp]: "cols (multiply_loop self matrix res) = cols res"
  unfolding multiply_loop_def by (intro cols_fold_inv) (simp add: Let_def)

lemma entry_fold_prune:
  "entry (fold (\<lambda>col res'. (let s = f col in if s \<noteq> 0 then set_element res' row col s else res'))
            cs res) i j =
     (if i = row \<and> j \<in> set cs \<and> f j \<noteq> 0 then Some (f j) else entry res i j)"
  by (induction cs arbitrary: res) (auto simp: entry_set_element Let_def)

lemma entry_fold_fold_prune:
  "entry (fold (\<lambda>row res. fold (\<lambda>col res'. (let s = f row col in
                                 if s \<noteq> 0 then set_element res' row col s else res')) cs res)
            rs res) i j =
     (if i \<in> set rs \<and> j \<in> set cs \<and> f i j \<noteq> 0 then Some (f i j) else entry res i j)"
  by (induction rs arbitrary: res) (auto simp: entry_fold_prune)

lemma fold_plus_sum_list: "fold (\<lambda>k s. s + f k) xs (a::int) = a + sum_list (map f xs)"
  by (induction xs arbitrary: a) auto

lemma sum_product_sum:
  "sum_product self matrix row col =
     (\<Sum>k = 0..<cols self. get_element self row k * get_element matrix k col)"
proof -
  have s: "set [0..cols self - 1] = {0..<cols self}" by auto
  show ?thesis
    unfolding sum_product_def fold_plus_sum_list
    by (simp add: sum_list_distinct_conv_sum_set s del: set_upto)
qed

lemma get_element_absent_row: "row \<notin> set (keys (data self)) \<Longrightarrow> get_element self row k = 0"
  by (simp add: map_of_keys get_element_def dict_get_def)

lemma sum_product_absent_row:
  "row \<notin> set (keys (data self)) \<Longrightarrow> sum_product self matrix row col = 0"
  by (simp add: sum_product_sum get_element_absent_row)

lemma entry_multiply_loop:
  "entry (multiply_loop self matrix res) i j =
     (if 0 \<le> j \<and> j < cols matrix \<and> sum_product self matrix i j \<noteq> 0
      then Some (sum_product self matrix i j) else entry res i j)"
  unfolding multiply_loop_def entry_fold_fold_prune
  using sum_product_absent_row [of i self matrix j] by auto

lemma get_element_copy_loop:
  "get_element (copy_loop A res) i j = (if has_entry A i j then get_element A i j else get_element res i j)"
  by (simp add: get_element_entry has_entry_entry entry_copy_loop split: option.splits)

lemma get_element_accum_loop:
  "wf_matrix B \<Longrightarrow> get_element (accum_loop op B res) i j =
     (if has_entry B i j then op (get_element res i j) (get_element B i j) else get_element res i j)"
  by (simp add: get_element_entry has_entry_entry entry_accum_loop split: option.splits)

lemma get_element_init [simp]: "get_element (init r c) i j = 0"
  by (simp add: get_element_entry)

lemma get_element_no_entry: "\<not> has_entry A i j \<Longrightarrow> get_element A i j = 0"
  by (simp add: get_element_entry has_entry_entry)

lemma get_element_copy_init [simp]: "get_element (copy_loop A (init r c)) i j = get_element A i j"
  by (simp add: get_element_copy_loop get_element_no_entry)

section \<open>Errors of \<open>from_text\<close>\<close>

lemma int_literal_error: "int_literal s = Inl e \<Longrightarrow> e = ValueError"
  by (auto simp: int_literal_def split: option.splits if_splits)

lemma py_int_error: "py_int s = Inl e \<Longrightarrow> e = ValueError"
  by (auto simp: py_int_def split: list.splits if_splits sum.splits dest: int_literal_error)

lemma list_index_error: "list_index xs i = Inl e \<Longrightarrow> e = IndexError"
  by (auto simp: list_index_def split: if_splits)

lemma header_field_error: "header_field ls i = Inl e \<Longrightarrow> e = IndexError \<or> e = ValueError"
  by (auto simp: header_field_def split: sum.splits dest: py_int_error list_index_error)

lemma parse_entry_error: "parse_entry line = Inl e \<Longrightarrow> e = ValueError"
  by (auto simp: parse_entry_def split: list.splits sum.splits)



lemma load_entries_fails:
  "\<exists>line \<in> set ls. \<forall>t. parse_entry line \<noteq> Inr t \<Longrightarrow> load_entries ls m = Inl FormatError"
proof (induction ls arbitrary: m)
  case Nil
  then show ?case by simp
next
  case (Cons line ls)
  show ?case
  proof (cases "parse_entry line")
    case (Inl e')
    then show ?thesis
      by (auto simp: is_ValueError_def dest: parse_entry_error)
  next
    case (Inr t)
    with Cons show ?thesis by (cases t) auto
  qed
qed

lemma parse_entry_Inr:
  "(\<exists>t. parse_entry line = Inr t) \<longleftrightarrow>
   (\<exists>r c v. map py_int (split CHR '','' (slice_1_m1 line)) = [Inr r, Inr c, Inr v])"
  by (auto simp: parse_entry_def split: list.splits sum.splits)

lemma header_short: "length ls < 2 \<Longrightarrow> header_field ls 0 = Inr r \<Longrightarrow> header_field ls 1 = Inl IndexError"
  by (auto simp: header_field_def list_index_def split: sum.splits)


section \<open>Round trip through text\<close>

subsection \<open>Digits\<close>

lemma digit_char [simp]:
  "d < 10 \<Longrightarrow> is_digit (char_of (48 + d))" "d < 10 \<Longrightarrow> digit_val (char_of (48 + d)) = d"
  by (simp_all add: is_digit_def digit_val_def)

lemma str_nat_digits: "c \<in> set (str_nat n) \<Longrightarrow> is_digit c"
proof (induction n rule: str_nat.induct)
  case (1 n)
  then show ?case
    by (subst (asm) (2) str_nat.simps) (auto split: if_splits)
qed

lemma str_nat_nonempty: "str_nat n \<noteq> []"
  by (subst str_nat.simps) simp

lemma int_digits_dec: "\<forall>c \<in> set ds. is_digit c \<Longrightarrow> int_digits a ds = Some (dec_val a ds)"
  by (induction ds arbitrary: a) (simp_all add: dec_val_def)

lemma dec_val_str_nat: "dec_val 0 (str_nat n) = n"
proof (induction n rule: str_nat.induct)
  case (1 n)
  show ?case
  proof (cases "n < 10")
    case True
    then show ?thesis by (subst str_nat.simps) (simp add: dec_val_def)
  next
    case False
    then have "dec_val 0 (str_nat n) = 10 * dec_val 0 (str_nat (n div 10)) + n mod 10"
      by (subst str_nat.simps) (simp add: dec_val_def)
    with False "1.IH" show ?thesis by simp
  qed
qed

lemma parse_nat_str_nat: "parse_nat (str_nat n) = Some n"
proof (cases "str_nat n")
  case Nil
  then show ?thesis using str_nat_nonempty by simp
next
  case (Cons c cs)
  then have d: "is_digit c" "\<forall>x \<in> set cs. is_digit x"
    using str_nat_digits [of _ n] by auto
  have "dec_val 0 (c # cs) = n" using dec_val_str_nat [of n] Cons by simp
  then have "dec_val (digit_val c) cs = n" by (simp add: dec_val_def)
  with d Cons show ?thesis by (simp add: parse_nat_def int_digits_dec)
qed

lemma strip_with_id:
  assumes "s \<noteq> []" "\<not> P (hd s)" "\<not> P (last s)" "\<forall>c \<in> set pre. P c" "\<forall>c \<in> set post. P c"
  shows "strip_with P (pre @ s @ post) = s"
proof -
  have 1: "dropWhile P (pre @ s @ post) = s @ post"
    using assms(1,2,4) by (cases s) (simp_all add: dropWhile_append3)
  have "rev s \<noteq> []" "\<not> P (hd (rev s))" using assms(1,3) by (simp_all add: hd_rev)
  then have 2: "dropWhile P (rev post @ rev s) = rev s"
    using assms(5) by (cases "rev s") (simp_all add: dropWhile_append3)
  show ?thesis by (simp add: strip_with_def 1 2)
qed

lemma num_char_not:
  assumes "num_char c"
  shows "c \<noteq> CHR 0x0A" "c \<noteq> CHR '',''" "c \<noteq> CHR ''=''" "\<not> is_space c" "\<not> is_int_space c"
    "c \<noteq> CHR ''+''" "c \<noteq> CHR '' ''" "c \<noteq> CHR ''(''" "c \<noteq> CHR '')''"
  using assms by (auto simp: num_char_def is_digit_def is_space_def is_int_space_def)

lemma decimal_chars: "c \<in> set (decimal i) \<Longrightarrow> num_char c"
  by (auto simp: decimal_def num_char_def dest: str_nat_digits split: if_splits)

lemma decimal_nonempty: "decimal i \<noteq> []"
  by (simp add: decimal_def str_nat_nonempty)

lemma decimal_hd: "num_char (hd (decimal i))"
  using decimal_nonempty [of i] decimal_chars [of "hd (decimal i)" i] by simp

lemma decimal_last: "num_char (last (decimal i))"
  using decimal_nonempty [of i] decimal_chars [of "last (decimal i)" i] by simp

lemma filter_digits_str_nat: "filter is_digit (str_nat n) = str_nat n"
  by (simp add: filter_id_conv str_nat_digits)

lemma int_literal_str_nat:
  "length (str_nat n) \<le> max_str_digits \<Longrightarrow> int_literal (str_nat n) = Inr n"
  by (simp add: int_literal_def parse_nat_str_nat filter_digits_str_nat)

lemma py_int_decimal_stripped:
  assumes s: "strip_with is_int_space s = decimal i" and ok: "digits_ok i"
  shows "py_int s = Inr i"
proof (cases "i < 0")
  case True
  then have "int_literal (str_nat (nat (- i))) = Inr (nat (- i))"
    using ok by (intro int_literal_str_nat) (simp add: digits_ok_def abs_if)
  with True s show ?thesis
    by (simp add: py_int_def decimal_def)
next
  case False
  obtain c cs where c: "str_nat (nat i) = c # cs"
    using str_nat_nonempty [of "nat i"] by (cases "str_nat (nat i)") auto
  then have "is_digit c" using str_nat_digits [of c "nat i"] by simp
  then have "c \<noteq> CHR ''-''" "c \<noteq> CHR ''+''"
    by (auto simp: is_digit_def)
  moreover have "int_literal (str_nat (nat i)) = Inr (nat i)"
    using ok False by (intro int_literal_str_nat) (simp add: digits_ok_def abs_if)
  then have "int_literal (c # cs) = Inr (nat i)" using c by simp
  ultimately show ?thesis using False s c
    by (simp add: py_int_def decimal_def)
qed

lemma py_int_decimal:
  assumes "\<forall>c \<in> set pre. is_int_space c" and "digits_ok i"
  shows "py_int (pre @ decimal i) = Inr i"
proof -
  have "strip_with is_int_space (pre @ decimal i @ []) = decimal i"
    using assms(1) decimal_nonempty decimal_hd [of i] decimal_last [of i]
    by (intro strip_with_id) (auto dest: num_char_not)
  then show ?thesis using assms(2) by (simp add: py_int_decimal_stripped)
qed

subsection \<open>The number of digits\<close>

lemma length_str_nat_ge: "10 ^ k \<le> n \<Longrightarrow> k < length (str_nat n)"
proof (induction k arbitrary: n)
  case 0
  then show ?case using str_nat_nonempty [of n] by (cases "str_nat n") auto
next
  case (Suc k)
  have p: "10 * 10 ^ k \<le> n" using Suc.prems by simp
  have q: "(1::nat) \<le> 10 ^ k" by simp
  have n: "\<not> n < 10" using p q by linarith
  have "(10::nat) ^ k = (10 * 10 ^ k) div 10" by simp
  also have "\<dots> \<le> n div 10" using Suc.prems by (intro div_le_mono) simp
  finally have "k < length (str_nat (n div 10))" by (rule Suc.IH)
  then show ?case using n by (subst str_nat.simps) simp
qed

lemma length_str_nat_le: "n < 10 ^ Suc k \<Longrightarrow> length (str_nat n) \<le> Suc k"
proof (induction k arbitrary: n)
  case 0
  then show ?case by (subst str_nat.simps) simp
next
  case (Suc k)
  show ?case
  proof (cases "n < 10")
    case True
    then show ?thesis by (subst str_nat.simps) simp
  next
    case False
    have "n div 10 < 10 ^ Suc k" using Suc.prems by (simp add: less_mult_imp_div_less)
    then have "length (str_nat (n div 10)) \<le> Suc k" by (rule Suc.IH)
    then show ?thesis using False by (subst str_nat.simps) simp
  qed
qed

lemma py_str_ok: "digits_ok i \<Longrightarrow> py_str i = Inr (decimal i)"
  by (simp add: py_str_def digits_ok_def)

lemma py_str_too_long: "\<not> digits_ok i \<Longrightarrow> py_str i = Inl ValueError"
  by (simp add: py_str_def digits_ok_def)

lemma digits_ok_small:
  assumes "\<bar>i\<bar> < 10"
  shows "digits_ok i"
proof -
  have "nat \<bar>i\<bar> < 10" using assms by simp
  then have "str_nat (nat \<bar>i\<bar>) = [char_of (48 + nat \<bar>i\<bar>)]"
    by (subst str_nat.simps) simp
  then show ?thesis by (simp add: digits_ok_def max_str_digits_def)
qed

lemma digits_ok_half: "digits_ok half"
proof -
  have "nat \<bar>half\<bar> = 10 ^ (max_str_digits div 2)"
    by (simp add: half_def nat_power_eq)
  moreover have "(10::nat) ^ (max_str_digits div 2) < 10 ^ Suc (max_str_digits div 2)"
    by simp
  ultimately have "length (str_nat (nat \<bar>half\<bar>)) \<le> Suc (max_str_digits div 2)"
    by (simp only: length_str_nat_le)
  then show ?thesis by (simp add: digits_ok_def max_str_digits_def)
qed

lemma not_digits_ok_huge: "\<not> digits_ok huge"
proof -
  have "nat \<bar>huge\<bar> = 10 ^ max_str_digits"
    by (simp add: huge_def nat_power_eq)
  then have "max_str_digits < length (str_nat (nat \<bar>huge\<bar>))"
    by (simp add: length_str_nat_ge)
  then show ?thesis by (simp add: digits_ok_def)
qed

lemma half_half: "half * half = huge"
proof -
  have "max_str_digits div 2 + max_str_digits div 2 = max_str_digits"
    by (simp add: max_str_digits_def)
  then show ?thesis
    unfolding half_def huge_def power_add [symmetric] by (rule arg_cong)
qed

subsection \<open>Splitting\<close>

lemma split_no_sep: "sep \<notin> set s \<Longrightarrow> split sep s = [s]"
  by (induction s) auto

lemma split_append: "sep \<notin> set a \<Longrightarrow> split sep (a @ sep # b) = a # split sep b"
  by (induction a) auto

lemma file_lines_append:
  "CHR 0x0A \<notin> set l \<Longrightarrow> file_lines (l @ CHR 0x0A # rest) = (l @ [CHR 0x0A]) # file_lines rest"
  by (induction l) auto

lemma file_lines_concat:
  "\<forall>l \<in> set ls. CHR 0x0A \<notin> set l \<Longrightarrow>
   file_lines (concat (map (\<lambda>l. l @ [CHR 0x0A]) ls)) = map (\<lambda>l. l @ [CHR 0x0A]) ls"
  by (induction ls) (simp_all add: file_lines_append)

lemma strip_line:
  assumes "l \<noteq> []" "\<not> is_space (hd l)" "\<not> is_space (last l)"
  shows "strip (l @ [CHR 0x0A]) = l"
proof -
  have "strip_with is_space ([] @ l @ [CHR 0x0A]) = l"
    using assms by (intro strip_with_id) (simp_all add: is_space_def)
  then show ?thesis by (simp add: strip_def)
qed

lemma nonblank_lines_good:
  assumes "\<forall>l \<in> set ls. good_line l"
  shows "nonblank_lines (concat (map (\<lambda>l. l @ [CHR 0x0A]) ls)) = ls"
proof -
  have 1: "file_lines (concat (map (\<lambda>l. l @ [CHR 0x0A]) ls)) = map (\<lambda>l. l @ [CHR 0x0A]) ls"
    using assms by (intro file_lines_concat) (simp add: good_line_def)
  have 2: "strip (l @ [CHR 0x0A]) = l" if "l \<in> set ls" for l
    using assms that by (intro strip_line) (auto simp: good_line_def)
  have 3: "filter (\<lambda>line. strip line \<noteq> []) (map (\<lambda>l. l @ [CHR 0x0A]) ls) = map (\<lambda>l. l @ [CHR 0x0A]) ls"
    using assms 2 by (auto simp: filter_id_conv good_line_def)
  show ?thesis
    unfolding nonblank_lines_def 1 3 using 2 by (simp add: map_idI)
qed

subsection \<open>The lines of \<open>to_text\<close>\<close>

lemma fold_concat_map:
  "fold f (concat (map (\<lambda>x. map (k x) (h x)) xs)) res =
   fold (\<lambda>x. fold (\<lambda>y. f (k x y)) (h x)) xs res"
  by (induction xs arbitrary: res) (simp_all add: fold_map comp_def)

text \<open>The line of one entry, and the loops of \<open>to_text\<close> as one loop over the entries.\<close>

lemma entry_line_ok:
  "digits_ok row \<Longrightarrow> digits_ok col \<Longrightarrow> digits_ok val \<Longrightarrow>
   entry_line row col val = Inr (entry_body (row, col, val) @ [CHR 0x0A])"
  by (simp add: entry_line_def entry_body_def py_str_ok)

lemma entry_line_too_long:
  "\<not> (digits_ok row \<and> digits_ok col \<and> digits_ok val) \<Longrightarrow>
   entry_line row col val = Inl ValueError"
  by (auto simp: entry_line_def py_str_def digits_ok_def)

lemma to_text_loops:
  "fold (\<lambda>row res.
          fold (\<lambda>col res'. append_text res' (entry_line row col (get_element m row col)))
               (keys (dict_get (data m) row [])) res)
        (keys (data m)) start =
   fold (\<lambda>t res. case t of (row, col, val) \<Rightarrow> append_text res (entry_line row col val))
        (entries m) start"
  unfolding entries_def fold_concat_map by simp

lemma fold_append_text_error:
  "fold (\<lambda>t res. case t of (row, col, val) \<Rightarrow> append_text res (entry_line row col val))
        ts (Inl e) = Inl e"
  by (induction ts) (auto simp: append_text_def)

lemma fold_append_text_ok:
  "\<forall>t \<in> set ts. case t of (row, col, val) \<Rightarrow> digits_ok row \<and> digits_ok col \<and> digits_ok val \<Longrightarrow>
   fold (\<lambda>t res. case t of (row, col, val) \<Rightarrow> append_text res (entry_line row col val))
        ts (Inr a) =
   Inr (a @ concat (map (\<lambda>t. entry_body t @ [CHR 0x0A]) ts))"
  by (induction ts arbitrary: a) (auto simp: append_text_def entry_line_ok)

lemma fold_append_text_too_long:
  "\<not> (\<forall>t \<in> set ts. case t of (row, col, val) \<Rightarrow> digits_ok row \<and> digits_ok col \<and> digits_ok val) \<Longrightarrow>
   fold (\<lambda>t res. case t of (row, col, val) \<Rightarrow> append_text res (entry_line row col val))
        ts (Inr a) =
   Inl ValueError"
proof (induction ts arbitrary: a)
  case Nil
  then show ?case by simp
next
  case (Cons t ts)
  obtain row col val where t: "t = (row, col, val)" by (cases t)
  show ?case
  proof (cases "digits_ok row \<and> digits_ok col \<and> digits_ok val")
    case True
    then have "append_text (Inr a) (entry_line row col val) =
        Inr (a @ entry_body (row, col, val) @ [CHR 0x0A])"
      by (simp add: append_text_def entry_line_ok)
    moreover have "\<not> (\<forall>t \<in> set ts. case t of (row, col, val) \<Rightarrow>
        digits_ok row \<and> digits_ok col \<and> digits_ok val)"
      using Cons.prems True t by simp
    ultimately show ?thesis using Cons.IH t by simp
  next
    case False
    then have "append_text (Inr a) (entry_line row col val) = Inl ValueError"
      by (simp add: append_text_def entry_line_too_long)
    then show ?thesis using t by (simp add: fold_append_text_error)
  qed
qed

lemma to_text_fits: "fits m \<Longrightarrow> to_text m = Inr (text_of m)"
  by (simp add: to_text_def to_text_loops fits_def py_str_ok fold_append_text_ok text_of_def
      header_line_def comp_def)

lemma to_text_too_long:
  assumes "\<not> fits m"
  shows "to_text m = Inl ValueError"
proof (cases "digits_ok (rows m) \<and> digits_ok (cols m)")
  case True
  then have "\<not> (\<forall>t \<in> set (entries m). case t of (row, col, val) \<Rightarrow>
      digits_ok row \<and> digits_ok col \<and> digits_ok val)"
    using assms by (simp add: fits_def)
  then show ?thesis using True
    by (simp add: to_text_def to_text_loops py_str_ok fold_append_text_too_long)
next
  case False
  then show ?thesis
    by (cases "digits_ok (rows m)") (simp_all add: to_text_def py_str_ok py_str_too_long)
qed

text \<open>The entries that \<open>fits\<close> bounds are the stored ones.\<close>

lemma set_entries:
  "(row, col, val) \<in> set (entries m) \<longleftrightarrow> has_entry m row col \<and> val = get_element m row col"
  using in_keys_entry [of row m col] by (auto simp: entries_def has_entry_entry)

lemma decimal_no_char:
  assumes "c \<in> set (decimal i)"
  shows "c \<noteq> CHR 0x0A \<and> c \<noteq> CHR '','' \<and> c \<noteq> CHR ''='' \<and> c \<noteq> CHR '' ''"
proof -
  have n: "num_char c" using assms by (rule decimal_chars)
  show ?thesis
    using num_char_not(1) [OF n] num_char_not(2) [OF n] num_char_not(3) [OF n]
      num_char_not(7) [OF n]
    by simp
qed

lemma good_line_append:
  assumes "pre \<noteq> []" "\<not> is_space (hd pre)" "CHR 0x0A \<notin> set pre"
    and "s \<noteq> []" "\<not> is_space (last s)" "CHR 0x0A \<notin> set s"
  shows "good_line (pre @ s)"
  using assms by (simp add: good_line_def)

lemma decimal_no_newline: "CHR 0x0A \<notin> set (decimal i)"
  using decimal_no_char [of "CHR 0x0A" i] by blast

lemma decimal_last_no_space: "\<not> is_space (last (decimal i))"
  using decimal_last [of i] by (rule num_char_not(4))

lemma no_space_chars:
  "\<not> is_space CHR ''r''" "\<not> is_space CHR ''c''" "\<not> is_space CHR ''(''" "\<not> is_space CHR '')''"
  by (simp_all add: is_space_def)

lemma good_header_line:
  "name = ''rows'' \<or> name = ''cols'' \<Longrightarrow> good_line (header_line name n)"
  unfolding header_line_def append_assoc [symmetric]
  by (rule good_line_append)
     (auto simp: decimal_nonempty decimal_no_newline decimal_last_no_space no_space_chars)

lemma good_entry_body: "good_line (entry_body t)"
proof (cases t)
  case (fields row col val)
  have "good_line (''('' @ (decimal row @ '', '' @ decimal col @ '', '' @ decimal val @ '')''))"
    by (rule good_line_append) (simp_all add: decimal_no_newline no_space_chars)
  then show ?thesis by (simp add: fields entry_body_def)
qed

lemma header_field_line:
  assumes "i < length ls" "ls ! i = header_line name n" "CHR ''='' \<notin> set name" "digits_ok n"
  shows "header_field ls i = Inr n"
proof -
  have "CHR ''='' \<notin> set (decimal n)" using decimal_no_char [of "CHR ''=''" n] by auto
  then have "split CHR ''='' (name @ CHR ''='' # decimal n) = [name, decimal n]"
    using assms(3) by (simp add: split_append split_no_sep)
  moreover have "py_int (decimal n) = Inr n" using py_int_decimal [of "[]" n] assms(4) by simp
  ultimately show ?thesis using assms(1,2)
    by (simp add: header_field_def list_index_def header_line_def)
qed

lemma parse_entry_body:
  assumes "digits_ok row" "digits_ok col" "digits_ok val"
  shows "parse_entry (entry_body (row, col, val)) = Inr (row, col, val)"
proof -
  have c: "CHR '','' \<notin> set (decimal i)" for i using decimal_no_char [of "CHR '',''" i] by auto
  have "slice_1_m1 (entry_body (row, col, val)) =
      decimal row @ CHR '','' # ('' '' @ decimal col) @ CHR '','' # ('' '' @ decimal val)"
    by (simp add: slice_1_m1_def entry_body_def butlast_append)
  moreover have "split CHR '','' (decimal row @ CHR '','' # ('' '' @ decimal col) @ CHR '','' # ('' '' @ decimal val))
      = [decimal row, '' '' @ decimal col, '' '' @ decimal val]"
    using c by (simp add: split_append split_no_sep)
  moreover have "py_int (decimal row) = Inr row"
    using py_int_decimal [of "[]" row] assms(1) by simp
  moreover have "py_int ('' '' @ decimal i) = Inr i" if "digits_ok i" for i
    using that by (intro py_int_decimal) (simp_all add: is_int_space_def)
  ultimately show ?thesis using assms by (simp add: parse_entry_def)
qed

lemma load_entries_bodies:
  "\<forall>t \<in> set es. case t of (row, col, val) \<Rightarrow> digits_ok row \<and> digits_ok col \<and> digits_ok val \<Longrightarrow>
   load_entries (map entry_body es) m =
     Inr (fold (\<lambda>t res. case t of (row, col, val) \<Rightarrow> set_element res row col val) es m)"
  by (induction es arbitrary: m) (auto simp: parse_entry_body)

lemma fold_entries:
  "fold (\<lambda>t res. case t of (row, col, val) \<Rightarrow> set_element res row col val) (entries m) res =
     copy_loop m res"
  unfolding entries_def copy_loop_def fold_concat_map by simp

lemma from_text_text_of:
  assumes "fits m"
  shows "from_text (text_of m) = Inr (copy_loop m (init (rows m) (cols m)))"
proof -
  let ?ls = "header_line ''rows'' (rows m) # header_line ''cols'' (cols m) # map entry_body (entries m)"
  have ok: "digits_ok (rows m)" "digits_ok (cols m)"
    "\<forall>t \<in> set (entries m). case t of (row, col, val) \<Rightarrow>
       digits_ok row \<and> digits_ok col \<and> digits_ok val"
    using assms by (simp_all add: fits_def)
  have "\<forall>l \<in> set ?ls. good_line l"
    by (auto simp: good_header_line good_entry_body)
  then have "nonblank_lines (text_of m) = ?ls"
    unfolding text_of_def by (rule nonblank_lines_good)
  moreover have "header_field ?ls 0 = Inr (rows m)"
    by (rule header_field_line [where name = "''rows''"]) (simp_all add: ok)
  moreover have "header_field ?ls 1 = Inr (cols m)"
    by (rule header_field_line [where name = "''cols''"]) (simp_all add: ok)
  ultimately show ?thesis
    by (simp add: from_text_def load_entries_bodies [OF ok(3)] fold_entries)
qed

lemma roundtrip_fits:
  "fits m \<Longrightarrow> roundtrip m = Inr (copy_loop m (init (rows m) (cols m)))"
  by (simp add: roundtrip_def to_text_fits from_text_text_of)

lemma roundtrip_too_long: "\<not> fits m \<Longrightarrow> roundtrip m = Inl ValueError"
  by (simp add: roundtrip_def to_text_too_long)

section \<open>The heap: what the operators write\<close>

lemma extends_refl [simp]: "extends h h"
  by (simp add: extends_def)

lemma take_length_le:
  assumes "take (length ys) xs = ys"
  shows "length ys \<le> length xs"
proof -
  have "length (take (length ys) xs) = length ys" using assms by simp
  then show ?thesis by simp
qed

lemma length_extends:
  assumes "extends h h'"
  shows "length (instances h) \<le> length (instances h')"
    and "length (outers h) \<le> length (outers h')"
    and "length (inners h) \<le> length (inners h')"
  using assms by (simp_all add: extends_def take_length_le)

lemma set_update_subset: "set (AList.update k v al) \<subseteq> insert (k, v) (set al)"
  by (induction al) auto

lemma h_set_element_frame:
  assumes "extends h h'" "fresh_matrix h h' p"
  shows "extends h (h_set_element h' p row col v) \<and> fresh_matrix h (h_set_element h' p row col v) p"
proof -
  note len = length_extends [OF assms(1)]
  let ?d = "h_data h' p"
  have d: "length (outers h) \<le> ?d" "?d < length (outers h')"
    and p: "length (instances h) \<le> p" "p < length (instances h')"
    and q: "\<And>r q. (r, q) \<in> set (outers h' ! ?d) \<Longrightarrow> length (inners h) \<le> q \<and> q < length (inners h')"
    using assms(2) by (force simp: fresh_matrix_def h_dicts_def)+
  have ext: "take (length (instances h)) (instances h') = instances h"
    "take (length (outers h)) (outers h') = outers h"
    "take (length (inners h)) (inners h') = inners h"
    using assms(1) by (simp_all add: extends_def)
  show ?thesis
  proof (cases "map_of (outers h' ! ?d) row")
    case None
    let ?o = "AList.update row (length (inners h')) (outers h' ! ?d)"
    let ?h1 = "h'\<lparr>inners := inners h' @ [[]], outers := (outers h')[?d := ?o]\<rparr>"
    have u: "map_of ?o row = Some (length (inners h'))"
      by (simp add: update_conv')
    have hd: "h_data ?h1 p = ?d" by (simp add: h_data_def)
    have s: "h_set_element h' p row col v =
        ?h1\<lparr>inners := (inners h' @ [[]])[length (inners h') := AList.update col v []]\<rparr>"
      using None d(2) u by (simp add: h_set_element_def Let_def)
    have q': "length (inners h) \<le> q' \<and> q' < Suc (length (inners h'))" if "(r, q') \<in> set ?o" for r q'
      using that set_update_subset [of row "length (inners h')" "outers h' ! ?d"] q [of r q'] len(3)
      by auto
    show ?thesis
      unfolding s
      using d p ext len q'
      by (auto simp: extends_def fresh_matrix_def h_dicts_def h_data_def)
  next
    case (Some q0)
    then have "(row, q0) \<in> set (outers h' ! ?d)" by (rule map_of_SomeD)
    then have q0: "length (inners h) \<le> q0" using q by blast
    have s: "h_set_element h' p row col v =
        h'\<lparr>inners := (inners h')[q0 := AList.update col v (inners h' ! q0)]\<rparr>"
      using Some by (simp add: h_set_element_def Let_def)
    show ?thesis
      unfolding s
      using d p ext len q q0
      by (auto simp: extends_def fresh_matrix_def h_dicts_def h_data_def)
  qed
qed

lemma fold_invariant:
  "(\<And>x s. P s \<Longrightarrow> P (f x s)) \<Longrightarrow> P s \<Longrightarrow> P (fold f xs s)"
  by (induction xs arbitrary: s) auto

lemma fold_fold_invariant:
  assumes "\<And>x y s. P s \<Longrightarrow> P (f x y s)" "P s"
  shows "P (fold (\<lambda>x s'. fold (f x) (ks s' x) s') xs s)"
  using assms(2)
proof (induction xs arbitrary: s)
  case Nil
  then show ?case by simp
next
  case (Cons x xs)
  have "P (fold (f x) (ks s x) s)"
    using Cons.prems by (rule fold_invariant [rotated]) (rule assms(1))
  then show ?case using Cons.IH by simp
qed

lemma owns_set_element: "owns h p h' \<Longrightarrow> owns h p (h_set_element h' p row col v)"
  using h_set_element_frame by (simp add: owns_def)

lemma owns_init: "h_init h r c = (p, h1) \<Longrightarrow> owns h p h1"
  by (auto simp: h_init_def owns_def extends_def fresh_matrix_def h_dicts_def h_data_def)

lemma owns_copy_loop: "owns h p h' \<Longrightarrow> owns h p (h_copy_loop h' self p)"
  unfolding h_copy_loop_def
  by (rule fold_fold_invariant [where P = "owns h p"]) (simp_all add: owns_set_element)

lemma owns_accum_loop: "owns h p h' \<Longrightarrow> owns h p (h_accum_loop op h' matrix p)"
  unfolding h_accum_loop_def
  by (rule fold_fold_invariant [where P = "owns h p"]) (simp_all add: owns_set_element)

lemma owns_multiply_loop: "owns h p h' \<Longrightarrow> owns h p (h_multiply_loop h' self matrix p)"
  unfolding h_multiply_loop_def
  by (rule fold_fold_invariant [where P = "owns h p"]) (simp_all add: owns_set_element Let_def)

lemma extends_h_matrix:
  assumes "extends h h'" "allocated h p"
  shows "h_matrix h' p = h_matrix h p"
proof -
  have i: "instances h' ! p = instances h ! p"
    using assms by (metis allocated_def extends_def nth_take)
  then have d: "h_data h' p = h_data h p" by (simp add: h_data_def)
  have o: "outers h' ! h_data h p = outers h ! h_data h p"
    using assms by (metis allocated_def extends_def nth_take)
  have "inners h' ! q = inners h ! q" if "q \<in> snd ` set (outers h ! h_data h p)" for q
    using assms that by (metis allocated_def extends_def nth_take)
  then have "map (\<lambda>(row, q). (row, inners h' ! q)) (outers h ! h_data h p) =
      map (\<lambda>(row, q). (row, inners h ! q)) (outers h ! h_data h p)"
    by (intro map_cong) force+
  then show ?thesis using i d o by (simp add: h_matrix_def h_dicts_def h_rows_def h_cols_def)
qed

lemma owns_frame:
  "owns h p h' \<Longrightarrow> allocated h self \<Longrightarrow> allocated h matrix \<Longrightarrow> frame h self matrix (Inr p, h')"
  by (simp add: frame_def owns_def extends_h_matrix)

lemma frame_error:
  "frame h self matrix (Inl e, h)"
  by (simp add: frame_def)

lemma frame_add:
  assumes "allocated h self" "allocated h matrix"
  shows "frame h self matrix (h_add h self matrix)"
proof (cases "h_rows h self \<noteq> h_rows h matrix \<or> h_cols h self \<noteq> h_cols h matrix")
  case True
  then show ?thesis by (simp add: h_add_def frame_error)
next
  case False
  obtain p h1 where i: "h_init h (h_rows h self) (h_cols h self) = (p, h1)"
    by (cases "h_init h (h_rows h self) (h_cols h self)")
  have "owns h p (h_accum_loop (+) (h_copy_loop h1 self p) matrix p)"
    by (intro owns_accum_loop owns_copy_loop owns_init [OF i])
  then have "frame h self matrix (Inr p, h_accum_loop (+) (h_copy_loop h1 self p) matrix p)"
    using assms by (rule owns_frame)
  then show ?thesis using False i by (simp add: h_add_def)
qed

lemma frame_subtract:
  assumes "allocated h self" "allocated h matrix"
  shows "frame h self matrix (h_subtract h self matrix)"
proof (cases "h_rows h self \<noteq> h_rows h matrix \<or> h_cols h self \<noteq> h_cols h matrix")
  case True
  then show ?thesis by (simp add: h_subtract_def frame_error)
next
  case False
  obtain p h1 where i: "h_init h (h_rows h self) (h_cols h self) = (p, h1)"
    by (cases "h_init h (h_rows h self) (h_cols h self)")
  have "owns h p (h_accum_loop (-) (h_copy_loop h1 self p) matrix p)"
    by (intro owns_accum_loop owns_copy_loop owns_init [OF i])
  then have "frame h self matrix (Inr p, h_accum_loop (-) (h_copy_loop h1 self p) matrix p)"
    using assms by (rule owns_frame)
  then show ?thesis using False i by (simp add: h_subtract_def)
qed

lemma frame_multiply:
  assumes "allocated h self" "allocated h matrix"
  shows "frame h self matrix (h_multiply h self matrix)"
proof (cases "h_cols h self \<noteq> h_rows h matrix")
  case True
  then show ?thesis by (simp add: h_multiply_def frame_error)
next
  case False
  obtain p h1 where i: "h_init h (h_rows h self) (h_cols h matrix) = (p, h1)"
    by (cases "h_init h (h_rows h self) (h_cols h matrix)")
  have "owns h p (h_multiply_loop h1 self matrix p)"
    by (intro owns_multiply_loop owns_init [OF i])
  then have "frame h self matrix (Inr p, h_multiply_loop h1 self matrix p)"
    using assms by (rule owns_frame)
  then show ?thesis using False i by (simp add: h_multiply_def)
qed

section \<open>The heap operators compute the matrices of the functional ones\<close>

lemma map_of_map_addr:
  "map_of (map (\<lambda>(r, q). (r, f q)) al) k = map_option f (map_of al k)"
  by (induction al) auto

lemma update_absent: "map_of al k = None \<Longrightarrow> AList.update k v al = al @ [(k, v)]"
  by (induction al) (auto split: if_splits)

lemma map_addr_cong:
  "(\<And>r q. (r, q) \<in> set al \<Longrightarrow> f q = g q) \<Longrightarrow>
   map (\<lambda>(r, q). (r, f q)) al = map (\<lambda>(r, q). (r, g q)) al"
  by (induction al) auto

lemma map_update_addr:
  "distinct (map snd al) \<Longrightarrow> map_of al k = Some q0 \<Longrightarrow> q0 < length xs \<Longrightarrow>
   map (\<lambda>(r, q). (r, xs[q0 := X] ! q)) al = AList.update k X (map (\<lambda>(r, q). (r, xs ! q)) al)"
proof (induction al)
  case Nil
  then show ?case by simp
next
  case (Cons a al)
  obtain r q where a: "a = (r, q)" by (cases a)
  show ?case
  proof (cases "r = k")
    case True
    with Cons.prems a have q: "q = q0" and n: "q0 \<notin> snd ` set al" by auto
    have "q0 \<noteq> qa" if "(r', qa) \<in> set al" for r' qa using that n by force
    then have "map (\<lambda>(r, q). (r, xs[q0 := X] ! q)) al = map (\<lambda>(r, q). (r, xs ! q)) al"
      by (intro map_addr_cong) simp
    with True a q Cons.prems(3) show ?thesis by simp
  next
    case False
    with Cons.prems a have "map_of al k = Some q0" "distinct (map snd al)" by auto
    moreover from this Cons.prems(1) a have "q \<noteq> q0"
      by (auto dest!: map_of_SomeD simp: image_iff)
    ultimately show ?thesis using Cons.IH Cons.prems(3) False a by simp
  qed
qed

lemma h_get_element_matrix: "h_get_element h p row col = get_element (h_matrix h p) row col"
  by (simp add: h_get_element_def get_element_def h_matrix_def h_dicts_def dict_get_def map_of_map_addr
      split: option.splits)

lemma h_row_keys_matrix: "h_row_keys h p row = keys (dict_get (data (h_matrix h p)) row [])"
  by (simp add: h_row_keys_def h_matrix_def h_dicts_def dict_get_def map_of_map_addr keys_def
      split: option.splits)

lemma h_keys_matrix: "keys (outers h ! h_data h p) = keys (data (h_matrix h p))"
  by (simp add: h_matrix_def h_dicts_def keys_def comp_def case_prod_unfold)

lemma h_rows_matrix: "h_rows h p = rows (h_matrix h p)" and h_cols_matrix: "h_cols h p = cols (h_matrix h p)"
  by (simp_all add: h_matrix_def h_dicts_def)

lemma update_append_last:
  "map_of al k = None \<Longrightarrow> AList.update k v (al @ [(k, w)]) = al @ [(k, v)]"
  by (induction al) (auto split: if_splits)

lemma data_set_element:
  "data (set_element m row col v) =
     (case map_of (data m) row of None \<Rightarrow> data m @ [(row, [(col, v)])]
      | Some rd \<Rightarrow> AList.update row (AList.update col v rd) (data m))"
  by (auto simp: set_element_def Let_def dict_get_def update_absent update_append_last
      split: option.splits)

lemma h_matrix_sel [simp]:
  "rows (h_matrix h p) = h_rows h p" "cols (h_matrix h p) = h_cols h p"
  "data (h_matrix h p) = h_dicts h p"
  by (simp_all add: h_matrix_def h_dicts_def h_dicts_def)

lemma h_set_element_instances [simp]:
  "instances (h_set_element h p row col v) = instances h"
  by (simp add: h_set_element_def Let_def split: option.splits)

lemma h_set_element_matrix:
  assumes "private_rows h p h'"
  shows "h_matrix (h_set_element h' p row col v) p = set_element (h_matrix h' p) row col v \<and>
    private_rows h p (h_set_element h' p row col v)"
proof -
  let ?d = "h_data h' p"
  let ?O = "outers h' ! ?d"
  let ?h'' = "h_set_element h' p row col v"
  have own: "owns h p h'" and dist: "distinct (map snd ?O)"
    using assms by (simp_all add: private_rows_def)
  have d: "?d < length (outers h')"
    and q: "\<And>r q. (r, q) \<in> set ?O \<Longrightarrow> q < length (inners h')"
    using own by (force simp: owns_def fresh_matrix_def h_dicts_def)+
  have own': "owns h p ?h''"
    using own by (rule owns_set_element)
  have d'': "h_data ?h'' p = ?d" by (simp add: h_data_def)
  have mD: "map_of (h_dicts h' p) row = map_option (\<lambda>q. inners h' ! q) (map_of ?O row)"
    by (simp add: h_dicts_def map_of_map_addr)
  have "h_dicts ?h'' p = data (set_element (h_matrix h' p) row col v) \<and>
      distinct (map snd (outers ?h'' ! ?d))"
  proof (cases "map_of ?O row")
    case None
    let ?n = "length (inners h')"
    have O': "AList.update row ?n ?O = ?O @ [(row, ?n)]"
      using None by (rule update_absent)
    have u: "map_of (?O @ [(row, ?n)]) row = Some ?n"
      using None by (simp add: map_add_def)
    have s: "?h'' =
        h'\<lparr>inners := inners h' @ [[(col, v)]], outers := (outers h')[?d := ?O @ [(row, ?n)]]\<rparr>"
      using None d u by (simp add: h_set_element_def Let_def O' del: map_of_append)
    have old: "map (\<lambda>(r, q). (r, (inners h' @ [[(col, v)]]) ! q)) ?O =
        map (\<lambda>(r, q). (r, inners h' ! q)) ?O"
      using q by (intro map_addr_cong) (simp add: nth_append)
    have n: "?n \<notin> snd ` set ?O" using q by force
    have o: "outers ?h'' ! ?d = ?O @ [(row, ?n)]" using d by (simp add: s)
    have "h_dicts ?h'' p = h_dicts h' p @ [(row, [(col, v)])]"
      unfolding h_dicts_def d'' o by (simp add: s old)
    moreover have "data (set_element (h_matrix h' p) row col v) = h_dicts h' p @ [(row, [(col, v)])]"
      using None by (simp add: data_set_element mD)
    ultimately show ?thesis using dist n by (simp add: o)
  next
    case (Some q0)
    then have q0: "q0 < length (inners h')" using q map_of_SomeD by fast
    have s: "?h'' = h'\<lparr>inners := (inners h')[q0 := AList.update col v (inners h' ! q0)]\<rparr>"
      using Some by (simp add: h_set_element_def Let_def)
    have o: "outers ?h'' ! ?d = ?O" by (simp add: s)
    have "h_dicts ?h'' p =
        AList.update row (AList.update col v (inners h' ! q0)) (h_dicts h' p)"
      unfolding h_dicts_def d'' o
      using map_update_addr [OF dist Some q0] by (simp add: s)
    moreover have "data (set_element (h_matrix h' p) row col v) =
        AList.update row (AList.update col v (inners h' ! q0)) (h_dicts h' p)"
      using Some by (simp add: data_set_element mD)
    ultimately show ?thesis using dist by (simp add: o)
  qed
  moreover have "h_rows ?h'' p = h_rows h' p" "h_cols ?h'' p = h_cols h' p"
    by (simp_all add: h_rows_def h_cols_def)
  ultimately have "h_matrix ?h'' p = set_element (h_matrix h' p) row col v"
    "distinct (map snd (outers ?h'' ! h_data ?h'' p))"
    by (simp_all add: d'')
  then show ?thesis using own' by (simp add: private_rows_def)
qed

lemma fold_sim:
  assumes "\<And>x s. I s \<Longrightarrow> \<alpha> (f x s) = g x (\<alpha> s) \<and> I (f x s)" and "I s"
  shows "\<alpha> (fold f xs s) = fold g xs (\<alpha> s) \<and> I (fold f xs s)"
  using assms(2) by (induction xs arbitrary: s) (simp_all add: assms(1))

lemma private_rows_operand:
  "private_rows h p h' \<Longrightarrow> allocated h x \<Longrightarrow> h_matrix h' x = h_matrix h x"
  by (simp add: private_rows_def owns_def extends_h_matrix)

lemma copy_loop_sim:
  assumes "private_rows h p h1" and A: "\<And>h'. private_rows h p h' \<Longrightarrow> h_matrix h' self = A"
  shows "h_matrix (h_copy_loop h1 self p) p = copy_loop A (h_matrix h1 p) \<and>
         private_rows h p (h_copy_loop h1 self p)"
proof -
  have inner: "h_matrix (fold (\<lambda>col h''. h_set_element h'' p row col (h_get_element h'' self row col))
                  (h_row_keys h' self row) h') p =
        fold (\<lambda>col res'. set_element res' row col (get_element A row col))
             (keys (dict_get (data A) row [])) (h_matrix h' p) \<and>
      private_rows h p (fold (\<lambda>col h''. h_set_element h'' p row col (h_get_element h'' self row col))
                  (h_row_keys h' self row) h')"
    if "private_rows h p h'" for row h'
    unfolding h_row_keys_matrix A [OF that]
    by (rule fold_sim [where I = "private_rows h p"])
       (simp_all add: that h_set_element_matrix h_get_element_matrix A)
  have "keys (outers h1 ! h_data h1 self) = keys (data A)"
    unfolding h_keys_matrix A [OF assms(1)] ..
  then show ?thesis
    unfolding h_copy_loop_def copy_loop_def
    by (simp only:) (rule fold_sim [where I = "private_rows h p"], rule inner, assumption,
      rule assms(1))
qed

lemma accum_loop_sim:
  assumes "private_rows h p h1" and B: "\<And>h'. private_rows h p h' \<Longrightarrow> h_matrix h' matrix = B"
  shows "h_matrix (h_accum_loop op h1 matrix p) p = accum_loop op B (h_matrix h1 p) \<and>
         private_rows h p (h_accum_loop op h1 matrix p)"
proof -
  have inner: "h_matrix (fold (\<lambda>col h''. h_set_element h'' p row col
                    (op (h_get_element h'' p row col) (h_get_element h'' matrix row col)))
                  (h_row_keys h' matrix row) h') p =
        fold (\<lambda>col res'. set_element res' row col
                 (op (get_element res' row col) (get_element B row col)))
             (keys (dict_get (data B) row [])) (h_matrix h' p) \<and>
      private_rows h p (fold (\<lambda>col h''. h_set_element h'' p row col
                    (op (h_get_element h'' p row col) (h_get_element h'' matrix row col)))
                  (h_row_keys h' matrix row) h')"
    if "private_rows h p h'" for row h'
    unfolding h_row_keys_matrix B [OF that]
    by (rule fold_sim [where I = "private_rows h p"])
       (simp_all add: that h_set_element_matrix h_get_element_matrix B)
  have "keys (outers h1 ! h_data h1 matrix) = keys (data B)"
    unfolding h_keys_matrix B [OF assms(1)] ..
  then show ?thesis
    unfolding h_accum_loop_def accum_loop_def
    by (simp only:) (rule fold_sim [where I = "private_rows h p"], rule inner, assumption,
      rule assms(1))
qed

lemma h_sum_product_matrix:
  "h_sum_product h self matrix row col = sum_product (h_matrix h self) (h_matrix h matrix) row col"
  by (simp add: h_sum_product_def sum_product_def h_get_element_matrix)

lemma multiply_loop_sim:
  assumes "private_rows h p h1" and A: "\<And>h'. private_rows h p h' \<Longrightarrow> h_matrix h' self = A"
    and B: "\<And>h'. private_rows h p h' \<Longrightarrow> h_matrix h' matrix = B"
  shows "h_matrix (h_multiply_loop h1 self matrix p) p = multiply_loop A B (h_matrix h1 p) \<and>
         private_rows h p (h_multiply_loop h1 self matrix p)"
proof -
  have inner: "h_matrix (fold (\<lambda>col h''. (let s = h_sum_product h'' self matrix row col
                     in if s \<noteq> 0 then h_set_element h'' p row col s else h''))
                  [0..h_cols h' matrix - 1] h') p =
        fold (\<lambda>col res'. (let s = sum_product A B row col
                     in if s \<noteq> 0 then set_element res' row col s else res'))
             [0..cols B - 1] (h_matrix h' p) \<and>
      private_rows h p (fold (\<lambda>col h''. (let s = h_sum_product h'' self matrix row col
                     in if s \<noteq> 0 then h_set_element h'' p row col s else h''))
                  [0..h_cols h' matrix - 1] h')"
    if "private_rows h p h'" for row h'
    unfolding h_cols_matrix B [OF that]
    by (rule fold_sim [where I = "private_rows h p"])
       (simp_all add: that h_set_element_matrix h_sum_product_matrix A B Let_def)
  have "keys (outers h1 ! h_data h1 self) = keys (data A)"
    unfolding h_keys_matrix A [OF assms(1)] ..
  then show ?thesis
    unfolding h_multiply_loop_def multiply_loop_def
    by (simp only:) (rule fold_sim [where I = "private_rows h p"], rule inner, assumption,
      rule assms(1))
qed

lemma private_rows_init:
  "h_init h r c = (p, h1) \<Longrightarrow> private_rows h p h1 \<and> h_matrix h1 p = init r c"
  by (auto simp: private_rows_def owns_init h_init_def h_matrix_def h_dicts_def h_data_def h_rows_def
      h_cols_def init_def)

lemma h_add_refines:
  assumes "allocated h self" "allocated h matrix"
  shows "refines (h_add h self matrix) (add (h_matrix h self) (h_matrix h matrix))"
proof (cases "h_rows h self \<noteq> h_rows h matrix \<or> h_cols h self \<noteq> h_cols h matrix")
  case True
  then show ?thesis by (auto simp: h_add_def add_def refines_def)
next
  case False
  obtain p h1 where i: "h_init h (h_rows h self) (h_cols h self) = (p, h1)"
    by (cases "h_init h (h_rows h self) (h_cols h self)")
  note p = private_rows_init [OF i]
  note c = copy_loop_sim [OF conjunct1 [OF p] private_rows_operand [OF _ assms(1)]]
  note a = accum_loop_sim [OF conjunct2 [OF c] private_rows_operand [OF _ assms(2)]]
  show ?thesis
    using False i p c a by (simp add: h_add_def add_def refines_def)
qed

lemma h_subtract_refines:
  assumes "allocated h self" "allocated h matrix"
  shows "refines (h_subtract h self matrix) (subtract (h_matrix h self) (h_matrix h matrix))"
proof (cases "h_rows h self \<noteq> h_rows h matrix \<or> h_cols h self \<noteq> h_cols h matrix")
  case True
  then show ?thesis by (auto simp: h_subtract_def subtract_def refines_def)
next
  case False
  obtain p h1 where i: "h_init h (h_rows h self) (h_cols h self) = (p, h1)"
    by (cases "h_init h (h_rows h self) (h_cols h self)")
  note p = private_rows_init [OF i]
  note c = copy_loop_sim [OF conjunct1 [OF p] private_rows_operand [OF _ assms(1)]]
  note a = accum_loop_sim [OF conjunct2 [OF c] private_rows_operand [OF _ assms(2)]]
  show ?thesis
    using False i p c a by (simp add: h_subtract_def subtract_def refines_def)
qed

lemma h_multiply_refines:
  assumes "allocated h self" "allocated h matrix"
  shows "refines (h_multiply h self matrix) (multiply (h_matrix h self) (h_matrix h matrix))"
proof (cases "h_cols h self \<noteq> h_rows h matrix")
  case True
  then show ?thesis by (auto simp: h_multiply_def multiply_def refines_def)
next
  case False
  obtain p h1 where i: "h_init h (h_rows h self) (h_cols h matrix) = (p, h1)"
    by (cases "h_init h (h_rows h self) (h_cols h matrix)")
  note p = private_rows_init [OF i]
  note m = multiply_loop_sim [OF conjunct1 [OF p] private_rows_operand [OF _ assms(1)]
      private_rows_operand [OF _ assms(2)]]
  show ?thesis
    using False i p m by (simp add: h_multiply_def multiply_def refines_def)
qed

section \<open>Dict keys stay distinct\<close>

text \<open>
  \<open>wf_matrix\<close> holds of a new matrix and \<open>set_element\<close> keeps it, so it holds of every
  matrix the program builds: the results of the operators and of \<open>from_text\<close>.
\<close>

lemma wf_set_element: "wf_matrix m \<Longrightarrow> wf_matrix (set_element m r c v)"
proof -
  assume w: "wf_matrix m"
  have inner: "distinct (map fst rd)" if "map_of (data m) r = Some rd" for rd
    using w that by (auto simp: wf_matrix_def dest!: map_of_SomeD)
  have "distinct (map fst (snd p))"
    if "p \<in> set (AList.update r rd' (data m))" "distinct (map fst rd')" for p rd'
    using that w set_update_subset [of r rd' "data m"] by (auto simp: wf_matrix_def)
  then show ?thesis
    using w inner
    by (auto simp: wf_matrix_def data_set_element distinct_update map_of_eq_None_iff
        split: option.splits)
qed

lemma wf_copy_loop: "wf_matrix res \<Longrightarrow> wf_matrix (copy_loop A res)"
  unfolding copy_loop_def
  by (rule fold_fold_invariant [where P = wf_matrix]) (simp_all add: wf_set_element)

lemma wf_accum_loop: "wf_matrix res \<Longrightarrow> wf_matrix (accum_loop op B res)"
  unfolding accum_loop_def
  by (rule fold_fold_invariant [where P = wf_matrix]) (simp_all add: wf_set_element)

lemma wf_multiply_loop: "wf_matrix res \<Longrightarrow> wf_matrix (multiply_loop A B res)"
  unfolding multiply_loop_def
  by (rule fold_fold_invariant [where P = wf_matrix]) (simp_all add: wf_set_element Let_def)

lemma wf_operators:
  "add A B = Inr R \<Longrightarrow> wf_matrix R" "subtract A B = Inr R \<Longrightarrow> wf_matrix R"
  "multiply A B = Inr R \<Longrightarrow> wf_matrix R"
  by (auto simp: add_def subtract_def multiply_def wf_copy_loop wf_accum_loop wf_multiply_loop
      split: if_splits)

lemma wf_load_entries: "wf_matrix m \<Longrightarrow> load_entries ls m = Inr m' \<Longrightarrow> wf_matrix m'"
proof (induction ls arbitrary: m)
  case Nil
  then show ?case by simp
next
  case (Cons line ls)
  from Cons.prems(2) obtain r c v where "parse_entry line = Inr (r, c, v)"
    and "load_entries ls (set_element m r c v) = Inr m'"
    by (auto split: sum.splits if_splits)
  then show ?case using Cons.IH [of "set_element m r c v"] Cons.prems(1)
    by (simp add: wf_set_element)
qed

lemma wf_from_text: "from_text s = Inr m \<Longrightarrow> wf_matrix m"
  by (auto simp: from_text_def Let_def split: sum.splits if_splits dest: wf_load_entries [rotated])

section \<open>The claims\<close>

text \<open>
  Claim C1. \<open>A.multiply(B)\<close> raises \<open>DimensionMismatch\<close> if and only if \<open>cols A \<noteq> rows B\<close>.
  Otherwise it returns a matrix \<open>R\<close> of \<open>rows A\<close> by \<open>cols B\<close>; at every column
  \<open>0 \<le> j < cols B\<close> and every row \<open>i\<close> (in range or not) \<open>R.get_element(i, j)\<close> is the dot
  product over \<open>k\<close> in \<open>range(cols A)\<close>; and no key whose dot product is 0 is stored in \<open>R\<close>.
  The theorem holds for every association list, with or without duplicate keys.
\<close>

theorem multiply_spec:
  "(multiply A B = Inl DimensionMismatch \<longleftrightarrow> cols A \<noteq> rows B) \<and>
   (cols A = rows B \<longrightarrow>
      (\<exists>R. multiply A B = Inr R \<and> rows R = rows A \<and> cols R = cols B \<and>
        (\<forall>i j. 0 \<le> j \<and> j < cols B \<longrightarrow>
           get_element R i j = (\<Sum>k = 0..<cols A. get_element A i k * get_element B k j)) \<and>
        (\<forall>i j. (\<Sum>k = 0..<cols A. get_element A i k * get_element B k j) = 0 \<longrightarrow>
           \<not> has_entry R i j)))"
  by (simp add: multiply_def get_element_entry [of "multiply_loop A B _"] has_entry_entry
      entry_multiply_loop sum_product_sum)

text \<open>The example of the specification (section 8), and a shape that does not fit.\<close>

theorem multiply_spec_witness:
  "cols exA = rows exB \<and>
   (\<exists>R. multiply exA exB = Inr R \<and> R = \<lparr>rows = 2, cols = 2, data = [(0, [(0, 3), (1, 4)])]\<rparr> \<and>
      (0::int) \<le> 1 \<and> 1 < cols exB \<and>
      get_element R 0 1 = (\<Sum>k = 0..<cols exA. get_element exA 0 k * get_element exB k 1) \<and>
      get_element R 0 1 = 4 \<and>
      (\<Sum>k = 0..<cols exA. get_element exA 1 k * get_element exB k 1) = 0 \<and>
      \<not> has_entry R 1 1) \<and>
   cols exA \<noteq> rows exC \<and> multiply exA exC = Inl DimensionMismatch"
proof -
  let ?X = "\<lparr>rows = 2, cols = 2, data = [(0, [(0, 3), (1, 4)])]\<rparr>"
  have m: "multiply exA exB = Inr ?X"
    by (simp add: ex_defs op_defs)
  have g: "get_element ?X 0 1 = 4" "\<not> has_entry ?X 1 1"
    by (simp_all add: get_element_def dict_get_def has_entry_def)
  have s: "(\<Sum>k = 0..<cols exA. get_element exA 1 k * get_element exB k 1) = 0"
    by (simp add: sum_product_sum [symmetric]) (simp add: ex_defs op_defs)
  have c: "cols exA = rows exB" "(0::int) \<le> 1" "1 < cols exB" "cols exA \<noteq> rows exC"
    by (simp_all add: ex_defs)
  obtain R where R: "multiply exA exB = Inr R"
    "\<forall>i j. 0 \<le> j \<and> j < cols exB \<longrightarrow>
       get_element R i j = (\<Sum>k = 0..<cols exA. get_element exA i k * get_element exB k j)"
    using multiply_spec [of exA exB] c(1) by blast
  have "R = ?X" using R(1) m(1) by simp
  moreover have "get_element R 0 1 =
      (\<Sum>k = 0..<cols exA. get_element exA 0 k * get_element exB k 1)"
    using R(2) c(2,3) by blast
  moreover have "multiply exA exC = Inl DimensionMismatch"
    using multiply_spec [of exA exC] c(4) by simp
  ultimately show ?thesis using m g s c by blast
qed

text \<open>
  Claim C2. For \<open>A\<close> and \<open>B\<close> of equal \<open>rows\<close> and \<open>cols\<close>, \<open>A.add(B)\<close> returns a matrix
  of the same dimensions whose \<open>get_element\<close> is the sum of the operands' at every
  coordinate (in range or not), and whose stored keys are exactly the keys stored in \<open>A\<close> or in
  \<open>B\<close>: nothing is pruned. Only the dict that the accumulating pass iterates, \<open>B.data\<close>,
  has to be free of duplicate keys, as every Python dict is.
\<close>

theorem add_spec:
  assumes "wf_matrix B" and "rows A = rows B" and "cols A = cols B"
  shows "\<exists>R. add A B = Inr R \<and> rows R = rows A \<and> cols R = cols A \<and>
           (\<forall>r c. get_element R r c = get_element A r c + get_element B r c) \<and>
           (\<forall>r c. has_entry R r c \<longleftrightarrow> has_entry A r c \<or> has_entry B r c)"
proof -
  let ?R = "accum_loop (+) B (copy_loop A (init (rows A) (cols A)))"
  have e: "entry ?R r c =
      (case entry B r c of None \<Rightarrow> entry A r c | Some v \<Rightarrow> Some (get_element A r c + v))" for r c
    by (simp add: entry_accum_loop [OF assms(1)] entry_copy_loop get_element_entry
        split: option.splits)
  have "add A B = Inr ?R" using assms by (simp add: add_def)
  moreover have "get_element ?R r c = get_element A r c + get_element B r c" for r c
    by (simp add: get_element_entry [of ?R] e) (simp add: get_element_entry split: option.splits)
  moreover have "has_entry ?R r c \<longleftrightarrow> has_entry A r c \<or> has_entry B r c" for r c
    by (simp add: has_entry_entry e split: option.splits)
  ultimately show ?thesis by simp
qed

text \<open>At (1, 1) the operands hold 2 and -2: the sum 0 stays stored. The last line is the
  example of the specification (section 8).\<close>

theorem add_spec_witness:
  "wf_matrix exD \<and> rows exA = rows exD \<and> cols exA = cols exD \<and>
   (\<exists>R. add exA exD = Inr R \<and> rows R = 2 \<and> cols R = 2 \<and>
     get_element R 1 1 = get_element exA 1 1 + get_element exD 1 1 \<and>
     get_element R 1 1 = 0 \<and> has_entry R 1 1 \<and> has_entry R 1 0 \<and> \<not> has_entry exA 1 0) \<and>
   add exA exB = Inr \<lparr>rows = 2, cols = 2, data = [(0, [(0, 4), (1, 4)]), (1, [(1, 2)])]\<rparr>"
  using add_spec [of exD exA]
  by (simp add: ex_defs op_defs)

text \<open>
  Claim C3. \<open>A.subtract(B)\<close> raises \<open>DimensionMismatch\<close> when the dimensions differ.
  For equal dimensions it returns a matrix of the same dimensions whose \<open>get_element\<close> is
  \<open>A.get_element(r, c) - B.get_element(r, c)\<close> at every coordinate, also at the keys stored
  only in \<open>B\<close>.
\<close>

theorem subtract_spec:
  "(rows A \<noteq> rows B \<or> cols A \<noteq> cols B \<longrightarrow> subtract A B = Inl DimensionMismatch) \<and>
   (wf_matrix B \<and> rows A = rows B \<and> cols A = cols B \<longrightarrow>
      (\<exists>R. subtract A B = Inr R \<and> rows R = rows A \<and> cols R = cols A \<and>
         (\<forall>r c. get_element R r c = get_element A r c - get_element B r c)))"
proof -
  let ?R = "accum_loop (-) B (copy_loop A (init (rows A) (cols A)))"
  have "get_element ?R r c = get_element A r c - get_element B r c" if "wf_matrix B" for r c
    by (simp add: get_element_accum_loop [OF that] get_element_no_entry)
  then show ?thesis by (auto simp: subtract_def)
qed

text \<open>The key (1, 0) is stored in \<open>exD\<close> only; \<open>exC\<close> has another shape.\<close>

theorem subtract_spec_witness:
  "wf_matrix exD \<and> rows exA = rows exD \<and> cols exA = cols exD \<and>
   (\<exists>R. subtract exA exD = Inr R \<and> rows R = 2 \<and> cols R = 2 \<and>
      \<not> has_entry exA 1 0 \<and> get_element R 1 0 = - 7 \<and> get_element R 1 1 = 4) \<and>
   rows exA \<noteq> rows exC \<and> subtract exA exC = Inl DimensionMismatch"
  using subtract_spec [of exA exD] subtract_spec [of exA exC]
  by (simp add: ex_defs op_defs)

text \<open>
  Claim C6. For \<open>A\<close> and \<open>B\<close> of equal dimensions, \<open>A.add(B).subtract(B)\<close> succeeds and is
  value-equal to \<open>A\<close>: the same \<open>rows\<close> and \<open>cols\<close>, and the same \<open>get_element\<close> at every
  coordinate.
\<close>

theorem add_subtract_roundtrip:
  assumes "wf_matrix B" and "rows A = rows B" and "cols A = cols B"
  shows "\<exists>S R. add A B = Inr S \<and> subtract S B = Inr R \<and> rows R = rows A \<and> cols R = cols A \<and>
           (\<forall>r c. get_element R r c = get_element A r c)"
proof -
  let ?S = "accum_loop (+) B (copy_loop A (init (rows A) (cols A)))"
  let ?R = "accum_loop (-) B (copy_loop ?S (init (rows ?S) (cols ?S)))"
  have S: "get_element ?S r c = get_element A r c + get_element B r c" for r c
    by (simp add: get_element_accum_loop [OF assms(1)] get_element_no_entry)
  have R: "get_element ?R r c = get_element ?S r c - get_element B r c" for r c
    by (simp add: get_element_accum_loop [OF assms(1)] get_element_no_entry)
  have "add A B = Inr ?S" using assms by (simp add: add_def)
  moreover have "subtract ?S B = Inr ?R" using assms by (simp add: subtract_def)
  moreover have "get_element ?R r c = get_element A r c" for r c
    using R [of r c] S [of r c] by simp
  ultimately show ?thesis using assms by simp
qed

theorem add_subtract_roundtrip_witness:
  "wf_matrix exD \<and> rows exA = rows exD \<and> cols exA = cols exD \<and>
   (\<exists>S R. add exA exD = Inr S \<and> subtract S exD = Inr R \<and> rows R = 2 \<and> cols R = 2 \<and>
      get_element R 1 1 = 2 \<and> get_element R 1 0 = 0 \<and> get_element R 0 0 = 1)"
  using add_subtract_roundtrip [of exD exA]
  by (simp add: ex_defs op_defs)

text \<open>
  Claim C9. For \<open>A\<close> and \<open>B\<close> of equal dimensions, \<open>A.add(B)\<close> and \<open>B.add(A)\<close> have the same
  dimensions, the same stored keys (those of \<open>A\<close> together with those of \<open>B\<close>) and the same
  value at every stored key.
\<close>

theorem add_commutes:
  assumes "wf_matrix A" and "wf_matrix B" and "rows A = rows B" and "cols A = cols B"
  shows "\<exists>R1 R2. add A B = Inr R1 \<and> add B A = Inr R2 \<and>
           rows R1 = rows R2 \<and> cols R1 = cols R2 \<and>
           (\<forall>r c. has_entry R1 r c \<longleftrightarrow> has_entry R2 r c) \<and>
           (\<forall>r c. has_entry R1 r c \<longleftrightarrow> has_entry A r c \<or> has_entry B r c) \<and>
           (\<forall>r c. has_entry R1 r c \<longrightarrow> entry R1 r c = entry R2 r c)"
proof -
  let ?R1 = "accum_loop (+) B (copy_loop A (init (rows A) (cols A)))"
  let ?R2 = "accum_loop (+) A (copy_loop B (init (rows B) (cols B)))"
  have e1: "entry ?R1 r c =
      (case entry B r c of None \<Rightarrow> entry A r c | Some v \<Rightarrow> Some (get_element A r c + v))" for r c
    by (simp add: entry_accum_loop [OF assms(2)] entry_copy_loop get_element_entry
        split: option.splits)
  have e2: "entry ?R2 r c =
      (case entry A r c of None \<Rightarrow> entry B r c | Some v \<Rightarrow> Some (get_element B r c + v))" for r c
    by (simp add: entry_accum_loop [OF assms(1)] entry_copy_loop get_element_entry
        split: option.splits)
  have "add A B = Inr ?R1" "add B A = Inr ?R2" using assms by (simp_all add: add_def)
  moreover have "entry ?R1 r c = entry ?R2 r c" for r c
    by (simp add: e1 e2 get_element_entry split: option.splits)
  moreover have "has_entry ?R1 r c \<longleftrightarrow> has_entry A r c \<or> has_entry B r c" for r c
    by (simp add: has_entry_entry e1 split: option.splits)
  ultimately show ?thesis using assms by (simp add: has_entry_entry)
qed

text \<open>The two sums differ in the order of their rows, not in their entries.\<close>

theorem add_commutes_witness:
  "wf_matrix exA \<and> wf_matrix exD \<and> rows exA = rows exD \<and> cols exA = cols exD \<and>
   (\<exists>R1 R2. add exA exD = Inr R1 \<and> add exD exA = Inr R2 \<and> data R1 \<noteq> data R2 \<and>
      has_entry R1 1 0 \<and> has_entry R2 1 0 \<and> entry R1 1 0 = Some 7 \<and> entry R2 1 0 = Some 7)"
  using add_commutes [of exA exD]
  by (simp add: ex_defs op_defs entry_def)

text \<open>
  Claim C7. \<open>get_element\<close> is a total function of the matrix and two integers, with no
  error result: it returns the stored value when the key is present, and 0 when the row is
  absent or the column is absent from the row, for every pair of integers, negative or out of
  range included.
\<close>

theorem get_element_total:
  "(\<forall>rd v. map_of (data m) row = Some rd \<and> map_of rd col = Some v \<longrightarrow> get_element m row col = v) \<and>
   (map_of (data m) row = None \<longrightarrow> get_element m row col = 0) \<and>
   (\<forall>rd. map_of (data m) row = Some rd \<and> map_of rd col = None \<longrightarrow> get_element m row col = 0)"
  by (simp add: get_element_def dict_get_def)

theorem get_element_total_witness:
  "map_of (data exA) 1 = Some [(1, 2)] \<and> map_of [(1, 2 :: int)] (1 :: int) = Some 2 \<and>
   get_element exA 1 1 = 2 \<and>
   map_of (data exA) (- 5) = None \<and> get_element exA (- 5) 1 = 0 \<and>
   map_of [(1, 2 :: int)] (7 :: int) = None \<and> get_element exA 1 7 = 0"
  using get_element_total [of exA 1 1] get_element_total [of exA "- 5" 1]
    get_element_total [of exA 1 7]
  by (simp add: ex_defs)


text \<open>
  Claim C5. \<open>from_text\<close> raises \<open>FormatError\<close>, and so returns no matrix, when the text has
  fewer than two non-blank lines, and when some entry line (a non-blank line after the second),
  with its first and last character removed and split at the commas, is not exactly three
  tokens that \<^verbatim>\<open>int()\<close> accepts.
\<close>

theorem from_text_malformed:
  "(length (nonblank_lines s) < 2 \<longrightarrow> from_text s = Inl FormatError) \<and>
   ((\<exists>line \<in> set (drop 2 (nonblank_lines s)).
       \<not> (\<exists>r c v. map py_int (split CHR '','' (slice_1_m1 line)) = [Inr r, Inr c, Inr v]))
     \<longrightarrow> from_text s = Inl FormatError)"
proof (intro conjI impI)
  assume "length (nonblank_lines s) < 2"
  then show "from_text s = Inl FormatError"
    using header_short [of "nonblank_lines s"]
    by (auto simp: from_text_def Let_def is_ValueError_def split: sum.splits
        dest: header_field_error)
next
  assume "\<exists>line \<in> set (drop 2 (nonblank_lines s)).
       \<not> (\<exists>r c v. map py_int (split CHR '','' (slice_1_m1 line)) = [Inr r, Inr c, Inr v])"
  then have "\<exists>line \<in> set (drop 2 (nonblank_lines s)). \<forall>t. parse_entry line \<noteq> Inr t"
    using parse_entry_Inr by blast
  then have "load_entries (drop 2 (nonblank_lines s)) m = Inl FormatError" for m
    by (rule load_entries_fails)
  then show "from_text s = Inl FormatError"
    by (auto simp: from_text_def Let_def is_ValueError_def split: sum.splits
        dest: header_field_error)
qed

text \<open>The two malformed inputs of the specification: the \<open>cols\<close> line missing, and an
  entry of two tokens.\<close>

theorem from_text_malformed_witness:
  "length (nonblank_lines text_missing_cols) < 2 \<and>
   from_text text_missing_cols = Inl FormatError \<and>
   ''(1,1)'' \<in> set (drop 2 (nonblank_lines text_short_entry)) \<and>
   map py_int (split CHR '','' (slice_1_m1 ''(1,1)'')) = [Inr 1, Inr 1] \<and>
   from_text text_short_entry = Inl FormatError"
proof -
  have 1: "length (nonblank_lines text_missing_cols) < 2" by code_simp
  have 2: "nonblank_lines text_short_entry = [''rows=2'', ''cols=2'', ''(1,1)'']" by code_simp
  have 3: "map py_int (split CHR '','' (slice_1_m1 ''(1,1)'')) = [Inr 1, Inr 1]" by code_simp
  show ?thesis
    using from_text_malformed [of text_missing_cols] from_text_malformed [of text_short_entry]
      1 2 3
    by simp
qed

text \<open>
  Claim C4, as stated, fails: \<open>to_text\<close> raises \<open>ValueError\<close> on a matrix that holds a
  number of more than 4300 digits, and such a matrix is the product of two matrices that
  load from text.
\<close>

theorem text_roundtrip_counterexample:
  "fits exP \<and> roundtrip exP = Inr exP \<and> multiply exP exP = Inr exBig \<and>
   to_text exBig = Inl ValueError \<and> roundtrip exBig = Inl ValueError"
proof -
  have e: "entries exP = [(0, 0, half)]" "entries exBig = [(0, 0, huge)]"
    by (simp_all add: entries_def exP_def exBig_def keys_def dict_get_def get_element_def)
  have p: "fits exP"
    by (simp add: fits_def e digits_ok_half) (simp add: exP_def digits_ok_small)
  have "half \<noteq> 0" by (simp add: half_def)
  then have m: "multiply exP exP = Inr exBig"
    by (simp add: exP_def exBig_def op_defs half_half)
  have "copy_loop exP (init (rows exP) (cols exP)) = exP"
    by (simp add: exP_def op_defs)
  then have r: "roundtrip exP = Inr exP" using p by (simp add: roundtrip_fits)
  have b: "\<not> fits exBig" by (simp add: fits_def e not_digits_ok_huge)
  show ?thesis
    using p r m b by (simp add: to_text_too_long roundtrip_too_long)
qed

text \<open>
  Claim C4, amended. For every matrix \<open>m\<close> in which \<open>rows\<close>, \<open>cols\<close> and the row key, the
  column key and the value of every stored entry have at most 4300 decimal digits,
  \<open>from_text (to_text m)\<close> succeeds and returns a matrix with the same \<open>rows\<close> and \<open>cols\<close>,
  the same stored keys and the same value at every key (so also the same \<open>get_element\<close>
  everywhere). The returned matrix is the one the copying pass of \<open>add\<close> builds from \<open>m\<close>
  (\<open>roundtrip_fits\<close>); for every other matrix \<open>to_text\<close> raises \<open>ValueError\<close>
  (\<open>to_text_too_long\<close>).
\<close>

theorem text_roundtrip:
  assumes "fits m"
  shows "\<exists>s m'. to_text m = Inr s \<and> from_text s = Inr m' \<and> roundtrip m = Inr m' \<and>
           rows m' = rows m \<and> cols m' = cols m \<and>
           (\<forall>r c. has_entry m' r c \<longleftrightarrow> has_entry m r c) \<and>
           (\<forall>r c. entry m' r c = entry m r c) \<and>
           (\<forall>r c. get_element m' r c = get_element m r c)"
  using assms
  by (simp add: to_text_fits from_text_text_of roundtrip_fits has_entry_entry entry_copy_loop
      split: option.splits)

theorem text_roundtrip_witness:
  "fits exD \<and>
   (\<exists>s m'. to_text exD = Inr s \<and> from_text s = Inr m' \<and> rows m' = 2 \<and> cols m' = 2 \<and>
        has_entry m' 1 0 \<and> entry m' 1 1 = Some (- 2) \<and> get_element m' 1 0 = 7 \<and>
        \<not> has_entry m' 0 0)"
proof -
  have f: "fits exD" by code_simp
  show ?thesis
    using text_roundtrip [OF f] f
    by (auto simp: exD_def has_entry_def entry_def get_element_def dict_get_def)
qed

text \<open>
  Claim C8. \<open>add\<close>, \<open>subtract\<close> and \<open>multiply\<close> write no object of the heap they are
  called in: after the call, with a result or with an error, every old object is unchanged,
  so both operands hold the same \<open>rows\<close>, \<open>cols\<close> and entries as before (also when the two
  operands are one object). A returned matrix is a new instance whose outer dict and inner
  dicts are all new; an error leaves the heap as it was.
\<close>

theorem operators_frame:
  assumes "allocated h self" "allocated h matrix"
  shows "frame h self matrix (h_add h self matrix) \<and>
         frame h self matrix (h_subtract h self matrix) \<and>
         frame h self matrix (h_multiply h self matrix)"
  using assms by (simp add: frame_add frame_subtract frame_multiply)

text \<open>Three matrices in a heap; \<open>subtract\<close> is called with one object as both operands.
  The last line is the heap after \<open>add\<close>: the old objects first, as they were, then the
  new instance, its outer dict and its two inner dicts.\<close>

theorem operators_frame_witness:
  "allocated exH 0 \<and> allocated exH 1 \<and> allocated exH 2 \<and>
   frame exH 0 1 (h_add exH 0 1) \<and> fst (h_add exH 0 1) = Inr 3 \<and>
   frame exH 0 0 (h_subtract exH 0 0) \<and> fst (h_subtract exH 0 0) = Inr 3 \<and>
   frame exH 0 1 (h_multiply exH 0 1) \<and> fst (h_multiply exH 0 1) = Inr 3 \<and>
   frame exH 0 2 (h_add exH 0 2) \<and> h_add exH 0 2 = (Inl DimensionMismatch, exH) \<and>
   snd (h_add exH 0 1) =
     \<lparr>instances = [(2, 2, 0), (2, 2, 1), (3, 1, 2), (2, 2, 3)],
      outers = [[(0, 0), (1, 1)], [(1, 2)], [(2, 3)], [(0, 4), (1, 5)]],
      inners = [[(0, 1)], [(1, 2)], [(1, - 2), (0, 7)], [(0, 5)], [(0, 1)], [(1, 0), (0, 7)]]\<rparr>"
proof -
  have e: "snd (h_add exH 0 1) =
     \<lparr>instances = [(2, 2, 0), (2, 2, 1), (3, 1, 2), (2, 2, 3)],
      outers = [[(0, 0), (1, 1)], [(1, 2)], [(2, 3)], [(0, 4), (1, 5)]],
      inners = [[(0, 1)], [(1, 2)], [(1, - 2), (0, 7)], [(0, 5)], [(0, 1)], [(1, 0), (0, 7)]]\<rparr>"
    by code_simp
  have a: "allocated exH 0" "allocated exH 1" "allocated exH 2"
    by (simp_all add: allocated_def exH_def h_data_def)
  have r: "fst (h_add exH 0 1) = Inr 3" "fst (h_subtract exH 0 0) = Inr 3"
    "fst (h_multiply exH 0 1) = Inr 3" "h_add exH 0 2 = (Inl DimensionMismatch, exH)"
    by (simp_all add: h_add_def h_subtract_def h_multiply_def h_init_def h_rows_def h_cols_def
        exH_def)
  show ?thesis
    using operators_frame [OF a(1) a(2)] operators_frame [OF a(1) a(1)]
      operators_frame [OF a(1) a(3)] a r e
    by simp
qed

end
